(* ===== verification/Prelude.thy ===== *)
theory Prelude
  imports Complex_Main "HOL-Library.Sublist" "HOL-Library.Multiset"
begin

text \<open>
  Shared vocabulary of the development: the Python exceptions the programs can raise,
  the Python built-ins they call (\<open>max\<close>/\<open>min\<close> with and without a key, true
  division), a first-index search that models a reference found by a scan of a list
  (\<open>next(s for s in xs if p(s))\<close> followed by in-place mutation), and generic list
  lemmas. Built-ins are modelled as CPython implements them: \<open>max\<close> keeps the
  current element unless a later one is strictly greater, so ties go to the first.
\<close>

named_theorems py_builtin_simps "evaluation rules of the modelled Python built-ins"
named_theorems inv_intros "operations preserve the invariant of their component"

datatype py_exc = EOFError | KeyboardInterrupt | ZeroDivisionError | ValueError

subsection \<open>True division\<close>

text \<open>Python's \<open>/\<close> on numbers: \<open>ZeroDivisionError\<close> on a zero divisor.\<close>

definition py_truediv :: "rat \<Rightarrow> rat \<Rightarrow> py_exc + rat" where
  "py_truediv a b = (if b = 0 then Inl ZeroDivisionError else Inr (a / b))"

lemma py_truediv_ok [simp, py_builtin_simps]:
  "b \<noteq> 0 \<Longrightarrow> py_truediv a b = Inr (a / b)"
  by (simp add: py_truediv_def)

lemma py_truediv_zero [simp, py_builtin_simps]:
  "py_truediv a 0 = Inl ZeroDivisionError"
  by (simp add: py_truediv_def)

subsection \<open>max and min as CPython scans them\<close>

fun max_scan :: "('a \<Rightarrow> 'b::linorder) \<Rightarrow> 'a \<Rightarrow> 'a list \<Rightarrow> 'a" where
  "max_scan k m [] = m"
| "max_scan k m (x # xs) = max_scan k (if k m < k x then x else m) xs"

fun min_scan :: "('a \<Rightarrow> 'b::linorder) \<Rightarrow> 'a \<Rightarrow> 'a list \<Rightarrow> 'a" where
  "min_scan k m [] = m"
| "min_scan k m (x # xs) = min_scan k (if k x < k m then x else m) xs"

text \<open>\<open>max(xs, key=k)\<close> and \<open>min(xs)\<close>; on an empty sequence both raise \<open>ValueError\<close>.\<close>

definition py_max :: "('a \<Rightarrow> 'b::linorder) \<Rightarrow> 'a list \<Rightarrow> py_exc + 'a" where
  "py_max k xs = (case xs of [] \<Rightarrow> Inl ValueError | x # rest \<Rightarrow> Inr (max_scan k x rest))"

definition py_min :: "('a \<Rightarrow> 'b::linorder) \<Rightarrow> 'a list \<Rightarrow> py_exc + 'a" where
  "py_min k xs = (case xs of [] \<Rightarrow> Inl ValueError | x # rest \<Rightarrow> Inr (min_scan k x rest))"

lemma py_max_Cons [simp, py_builtin_simps]: "py_max k (x # xs) = Inr (max_scan k x xs)"
  by (simp add: py_max_def)

lemma py_min_Cons [simp, py_builtin_simps]: "py_min k (x # xs) = Inr (min_scan k x xs)"
  by (simp add: py_min_def)

lemma py_max_Nil [simp]: "py_max k [] = Inl ValueError"
  by (simp add: py_max_def)

lemma py_min_Nil [simp]: "py_min k [] = Inl ValueError"
  by (simp add: py_min_def)

lemma max_scan_mem: "max_scan k m xs \<in> insert m (set xs)"
proof (induction xs arbitrary: m)
  case Nil
  then show ?case by simp
next
  case (Cons x xs)
  have "max_scan k m (x # xs) \<in> insert (if k m < k x then x else m) (set xs)"
    using Cons.IH by simp
  then show ?case by (auto split: if_splits)
qed

lemma min_scan_mem: "min_scan k m xs \<in> insert m (set xs)"
proof (induction xs arbitrary: m)
  case Nil
  then show ?case by simp
next
  case (Cons x xs)
  have "min_scan k m (x # xs) \<in> insert (if k x < k m then x else m) (set xs)"
    using Cons.IH by simp
  then show ?case by (auto split: if_splits)
qed

lemma max_scan_upper: "y \<in> insert m (set xs) \<Longrightarrow> k y \<le> k (max_scan k m xs)"
proof (induction xs arbitrary: m y)
  case Nil
  then show ?case by simp
next
  case (Cons x xs)
  let ?m' = "if k m < k x then x else m"
  have top: "k ?m' \<le> k (max_scan k ?m' xs)" by (rule Cons.IH) simp
  have "k y \<le> k ?m' \<or> y \<in> set xs" using Cons.prems by (auto simp: not_less)
  then show ?case
  proof
    assume "k y \<le> k ?m'"
    with top show ?thesis by simp
  next
    assume "y \<in> set xs"
    then show ?thesis by (simp add: Cons.IH)
  qed
qed

lemma min_scan_lower: "y \<in> insert m (set xs) \<Longrightarrow> k (min_scan k m xs) \<le> k y"
proof (induction xs arbitrary: m y)
  case Nil
  then show ?case by simp
next
  case (Cons x xs)
  let ?m' = "if k x < k m then x else m"
  have bot: "k (min_scan k ?m' xs) \<le> k ?m'" by (rule Cons.IH) simp
  have "k ?m' \<le> k y \<or> y \<in> set xs" using Cons.prems by (auto simp: not_less)
  then show ?case
  proof
    assume "k ?m' \<le> k y"
    with bot show ?thesis by simp
  next
    assume "y \<in> set xs"
    then show ?thesis by (simp add: Cons.IH)
  qed
qed

text \<open>
  Stability of the scan: the element returned is the first one, in list order, whose key
  is maximal; every element before it has a strictly smaller key.
\<close>

lemma max_scan_first:
  "\<exists>i < length (m # xs). max_scan k m xs = (m # xs) ! i \<and>
      (\<forall>j < i. k ((m # xs) ! j) < k (max_scan k m xs))"
proof (induction xs arbitrary: m)
  case Nil
  then show ?case by simp
next
  case (Cons x xs)
  let ?m' = "if k m < k x then x else m"
  let ?r = "max_scan k m (x # xs)"
  have r: "?r = max_scan k ?m' xs" by simp
  from Cons.IH [of ?m'] obtain i where i: "i < length (?m' # xs)"
    and at: "max_scan k ?m' xs = (?m' # xs) ! i"
    and before: "\<forall>j < i. k ((?m' # xs) ! j) < k (max_scan k ?m' xs)"
    by blast
  have x_le: "k x \<le> k ?r" and m_le: "k m \<le> k ?r"
    by (simp_all add: max_scan_upper del: max_scan.simps)
  show ?case
  proof (cases "k m < k x")
    case True
    then have "?r = (m # x # xs) ! Suc i" using at by simp
    moreover have "\<forall>j < Suc i. k ((m # x # xs) ! j) < k ?r"
    proof (intro allI impI)
      fix j assume "j < Suc i"
      then show "k ((m # x # xs) ! j) < k ?r"
        using True x_le before r by (cases j) (auto simp del: max_scan.simps)
    qed
    ultimately show ?thesis using i True by (intro exI [of _ "Suc i"]) auto
  next
    case False
    show ?thesis
    proof (cases i)
      case 0
      then show ?thesis using at False by (intro exI [of _ 0]) auto
    next
      case (Suc i')
      have m_lt: "k m < k ?r" using before Suc False r by auto
      have "?r = (m # x # xs) ! Suc i" using at False Suc by simp
      moreover have "\<forall>j < Suc i. k ((m # x # xs) ! j) < k ?r"
      proof (intro allI impI)
        fix j assume j: "j < Suc i"
        show "k ((m # x # xs) ! j) < k ?r"
        proof (cases j)
          case 0
          then show ?thesis using m_lt by simp
        next
          case (Suc j')
          show ?thesis
          proof (cases j')
            case 0
            then show ?thesis using Suc False m_lt by auto
          next
            case (Suc j'')
            with \<open>j = Suc j'\<close> j \<open>i = Suc i'\<close> before False r show ?thesis
              by (auto simp del: max_scan.simps)
          qed
        qed
      qed
      ultimately show ?thesis using i Suc False by (intro exI [of _ "Suc i"]) auto
    qed
  qed
qed

subsection \<open>First index of a match\<close>

text \<open>
  A scan \<open>next(s for s in xs if p(s))\<close> returns a reference into the list; the
  program mutates the element it finds in place. The position of that element is the
  first index satisfying the predicate.
\<close>

fun first_index :: "('a \<Rightarrow> bool) \<Rightarrow> 'a list \<Rightarrow> nat option" where
  "first_index P [] = None"
| "first_index P (x # xs) = (if P x then Some 0 else map_option Suc (first_index P xs))"

lemma find_first_index: "find P xs = map_option ((!) xs) (first_index P xs)"
  by (induction xs) (auto simp: option.map_comp comp_def)

lemma first_index_None [simp]: "first_index P xs = None \<longleftrightarrow> (\<forall>x \<in> set xs. \<not> P x)"
  by (induction xs) auto

lemma first_index_Some:
  "first_index P xs = Some i \<Longrightarrow> i < length xs \<and> P (xs ! i) \<and> (\<forall>j < i. \<not> P (xs ! j))"
proof (induction xs arbitrary: i)
  case Nil
  then show ?case by simp
next
  case (Cons x xs)
  then show ?case
    by (auto split: if_splits simp: less_Suc_eq_0_disj)
qed

lemma find_None_iff' [simp]: "find P xs = None \<longleftrightarrow> (\<forall>x \<in> set xs. \<not> P x)"
  by (induction xs) auto

lemma find_append_eq:
  "find P (xs @ ys) = (case find P xs of None \<Rightarrow> find P ys | Some x \<Rightarrow> Some x)"
  by (induction xs) auto

lemma find_Some_prop: "find P xs = Some x \<Longrightarrow> x \<in> set xs \<and> P x"
  by (induction xs) (auto split: if_splits)

lemma map_of_list_update:
  "distinct (map fst xs) \<Longrightarrow> i < length xs \<Longrightarrow>
     map_of (xs[i := (fst (xs ! i), v)]) = (map_of xs)(fst (xs ! i) \<mapsto> v)"
proof (induction xs arbitrary: i)
  case Nil
  then show ?case by simp
next
  case (Cons x xs)
  show ?case
  proof (cases i)
    case 0
    then show ?thesis by (cases x) (simp add: fun_eq_iff)
  next
    case (Suc j)
    from Cons.prems Suc have "fst (xs ! j) \<in> fst ` set xs" and "fst x \<notin> fst ` set xs"
      by (simp_all add: nth_mem)
    then have "fst (xs ! j) \<noteq> fst x" by metis
    with Cons Suc show ?thesis by (cases x) (auto simp: fun_upd_twist)
  qed
qed

subsection \<open>Means\<close>

definition mean :: "rat list \<Rightarrow> rat" where
  "mean xs = sum_list xs / of_nat (length xs)"

lemma mean_bounds:
  assumes "xs \<noteq> []" and "\<forall>x \<in> set xs. lo \<le> x \<and> x \<le> hi"
  shows "lo \<le> mean xs \<and> mean xs \<le> hi"
proof -
  have n: "0 < (of_nat (length xs) :: rat)" using assms(1) by simp
  have "of_nat (length xs) * lo \<le> sum_list xs"
    using sum_list_mono [of xs "\<lambda>_. lo" "\<lambda>x. x"] assms(2)
    by (simp add: sum_list_triv)
  moreover have "sum_list xs \<le> of_nat (length xs) * hi"
    using sum_list_mono [of xs "\<lambda>x. x" "\<lambda>_. hi"] assms(2)
    by (simp add: sum_list_triv)
  ultimately show ?thesis
    using n by (simp add: mean_def pos_le_divide_eq pos_divide_le_eq mult.commute)
qed

end
