(* ===== verification/PyStr.thy ===== *)
theory PyStr
  imports Prelude
begin

text \<open>
  The Python string built-ins the grade analyzer relies on: \<open>str.isspace\<close>,
  \<open>str.strip()\<close>, \<open>str.lower()\<close> and the constructor \<open>int(s)\<close>, including
  CPython's limit on the number of digits it converts. Python strings are sequences of Unicode code
  points; a HOL \<open>char\<close> is a code point below 256, so the model is the Latin-1
  fragment of Unicode, on which it is exact: the whitespace set, the lower-case map
  and the decimal digits below are those CPython uses for code points 0 to 255.
\<close>

subsection \<open>Whitespace and strip\<close>

text \<open>Code points \<open>c\<close> below 256 with \<open>chr(c).isspace()\<close>.\<close>

definition py_whitespace :: "nat list" where
  "py_whitespace = [9, 10, 11, 12, 13, 28, 29, 30, 31, 32, 133, 160]"

definition py_isspace :: "char \<Rightarrow> bool" where
  "py_isspace c \<longleftrightarrow> of_char c \<in> set py_whitespace"

definition py_lstrip :: "string \<Rightarrow> string" where
  "py_lstrip s = dropWhile py_isspace s"

definition py_rstrip :: "string \<Rightarrow> string" where
  "py_rstrip s = rev (dropWhile py_isspace (rev s))"

definition py_strip :: "string \<Rightarrow> string" where
  "py_strip s = py_rstrip (py_lstrip s)"

subsection \<open>Lower case\<close>

text \<open>
  \<open>str.lower\<close> on code points below 256: \<open>A\<close>..\<open>Z\<close> and
  U+00C0..U+00DE except U+00D7 map 32 positions up; every other code point is fixed.
\<close>

definition py_lower_char :: "char \<Rightarrow> char" where
  "py_lower_char c =
     (let n = of_char c :: nat in
      if (65 \<le> n \<and> n \<le> 90) \<or> (192 \<le> n \<and> n \<le> 222 \<and> n \<noteq> 215)
      then char_of (n + 32) else c)"

definition py_lower :: "string \<Rightarrow> string" where
  "py_lower s = map py_lower_char s"

subsection \<open>int(s)\<close>

text \<open>
  \<open>int(s)\<close> with base 10: surrounding whitespace is stripped, then an optional
  sign, then decimal digits in which single underscores may separate two digits
  (\<open>int("1_000") = 1000\<close>, \<open>int("-0") = 0\<close>, \<open>int("+7") = 7\<close>); anything
  else raises \<open>ValueError\<close>, modelled as \<open>None\<close>. CPython (3.11 on, and the security
  releases of 3.7-3.10) also raises \<open>ValueError\<close> when the string holds more than
  \<open>sys.get_int_max_str_digits()\<close> digits, 4300 by default (underscores and sign not
  counted, leading zeros counted): \<open>int("0" * 4300 + "50")\<close> is an error, not 50.
\<close>

definition int_max_str_digits :: nat where
  "int_max_str_digits = 4300"

definition is_digit :: "char \<Rightarrow> bool" where
  "is_digit c \<longleftrightarrow> 48 \<le> (of_char c :: nat) \<and> (of_char c :: nat) \<le> 57"

definition digit_value :: "char \<Rightarrow> nat" where
  "digit_value c = of_char c - 48"

fun parse_digits :: "nat \<Rightarrow> string \<Rightarrow> nat option" where
  "parse_digits acc [] = Some acc"
| "parse_digits acc (c # cs) =
     (if c = CHR ''_'' then
        (case cs of
           [] \<Rightarrow> None
         | d # ds \<Rightarrow> if is_digit d then parse_digits (10 * acc + digit_value d) ds else None)
      else if is_digit c then parse_digits (10 * acc + digit_value c) cs
      else None)"

definition parse_unsigned :: "string \<Rightarrow> nat option" where
  "parse_unsigned s =
     (case s of
        [] \<Rightarrow> None
      | c # cs \<Rightarrow> if is_digit c then parse_digits (digit_value c) cs else None)"

definition py_int :: "string \<Rightarrow> int option" where
  "py_int s =
     (let t = py_strip s in
      if int_max_str_digits < length (filter is_digit t) then None
      else case t of
        [] \<Rightarrow> None
      | c # r \<Rightarrow>
          if c = CHR ''+'' then map_option int (parse_unsigned r)
          else if c = CHR ''-'' then map_option (\<lambda>n. - int n) (parse_unsigned r)
          else map_option int (parse_unsigned t))"

subsection \<open>Lemmas on strip\<close>

lemma py_isspace_code [py_builtin_simps]:
  "py_isspace c \<longleftrightarrow> of_char c \<in> set [9, 10, 11, 12, 13, 28, 29, 30, 31, 32, 133, 160::nat]"
  by (simp add: py_isspace_def py_whitespace_def)

lemma py_lstrip_idem [simp]: "py_lstrip (py_lstrip s) = py_lstrip s"
  by (induction s) (auto simp: py_lstrip_def)

lemma py_lstrip_hd: "py_lstrip s \<noteq> [] \<Longrightarrow> \<not> py_isspace (hd (py_lstrip s))"
  unfolding py_lstrip_def by (metis hd_dropWhile)

lemma py_rstrip_last: "py_rstrip s \<noteq> [] \<Longrightarrow> \<not> py_isspace (last (py_rstrip s))"
  unfolding py_rstrip_def by (metis hd_dropWhile last_rev rev_is_Nil_conv)

lemma dropWhile_suffix_sublist: "sublist (dropWhile P s) s"
  by (rule suffix_imp_sublist [OF suffix_dropWhile])

lemma py_strip_sublist: "sublist (py_strip s) s"
proof -
  have l: "sublist (py_lstrip s) s"
    unfolding py_lstrip_def by (rule dropWhile_suffix_sublist)
  have "sublist (rev (py_strip s)) (rev (py_lstrip s))"
    unfolding py_strip_def py_rstrip_def by (simp add: dropWhile_suffix_sublist)
  then have "sublist (py_strip s) (py_lstrip s)"
    by (simp add: sublist_rev)
  then show ?thesis using l by (rule sublist_order.order.trans)
qed

lemma py_rstrip_prefix: "prefix (py_rstrip s) s"
proof -
  have "rev s = takeWhile py_isspace (rev s) @ dropWhile py_isspace (rev s)"
    by simp
  then have "s = py_rstrip s @ rev (takeWhile py_isspace (rev s))"
    unfolding py_rstrip_def by (metis rev_append rev_rev_ident)
  then show ?thesis unfolding prefix_def by blast
qed

lemma py_strip_edges:
  assumes "py_strip s \<noteq> []"
  shows "\<not> py_isspace (hd (py_strip s)) \<and> \<not> py_isspace (last (py_strip s))"
proof
  let ?u = "py_lstrip s"
  obtain zs where u: "?u = py_rstrip ?u @ zs"
    using py_rstrip_prefix [of ?u] unfolding prefix_def by blast
  have ne: "py_rstrip ?u \<noteq> []" using assms by (simp add: py_strip_def)
  then have "?u \<noteq> []" by (auto simp: py_rstrip_def)
  with u ne have "hd (py_strip s) = hd ?u"
    unfolding py_strip_def by (metis hd_append2)
  then show "\<not> py_isspace (hd (py_strip s))"
    using py_lstrip_hd \<open>?u \<noteq> []\<close> by simp
  show "\<not> py_isspace (last (py_strip s))"
    using py_rstrip_last ne by (simp add: py_strip_def)
qed

lemma py_strip_fixed:
  assumes "t = [] \<or> (\<not> py_isspace (hd t) \<and> \<not> py_isspace (last t))"
  shows "py_strip t = t"
proof (cases t)
  case Nil
  then show ?thesis by (simp add: py_strip_def py_lstrip_def py_rstrip_def)
next
  case (Cons c r)
  with assms have l: "py_lstrip t = t" by (simp add: py_lstrip_def)
  from Cons have "rev t = last t # rev (butlast t)"
    by (metis append_butlast_last_id list.distinct(1) rev.simps(2) rev_rev_ident)
  with assms Cons have "dropWhile py_isspace (rev t) = rev t" by simp
  with l show ?thesis by (simp add: py_strip_def py_rstrip_def)
qed

lemma py_strip_idem [simp]: "py_strip (py_strip s) = py_strip s"
  using py_strip_edges py_strip_fixed by blast

lemma py_strip_Nil [simp]: "py_strip [] = []"
  by (simp add: py_strip_def py_lstrip_def py_rstrip_def)

lemma py_strip_decomp:
  "\<exists>u v. s = u @ py_strip s @ v \<and> (\<forall>c \<in> set u. py_isspace c) \<and> (\<forall>c \<in> set v. py_isspace c)"
proof -
  let ?u = "takeWhile py_isspace s"
  let ?v = "rev (takeWhile py_isspace (rev (py_lstrip s)))"
  have "rev (py_lstrip s) = takeWhile py_isspace (rev (py_lstrip s)) @ dropWhile py_isspace (rev (py_lstrip s))"
    by simp
  then have "py_lstrip s = py_strip s @ ?v"
    unfolding py_strip_def py_rstrip_def by (metis rev_append rev_rev_ident)
  then have "s = ?u @ py_strip s @ ?v"
    by (metis py_lstrip_def takeWhile_dropWhile_id)
  moreover have "\<forall>c \<in> set ?u. py_isspace c" and "\<forall>c \<in> set ?v. py_isspace c"
    by (auto dest: set_takeWhileD)
  ultimately show ?thesis by blast
qed

lemma py_strip_Nil_iff: "py_strip s = [] \<longleftrightarrow> (\<forall>c \<in> set s. py_isspace c)"
proof
  assume "py_strip s = []"
  with py_strip_decomp [of s] show "\<forall>c \<in> set s. py_isspace c" by auto
next
  assume "\<forall>c \<in> set s. py_isspace c"
  then have "py_lstrip s = []" by (simp add: py_lstrip_def)
  then show "py_strip s = []" by (simp add: py_strip_def py_rstrip_def)
qed

subsection \<open>Lemmas on lower\<close>

lemma of_char_py_lower_char:
  "(of_char (py_lower_char c) :: nat) =
     (let n = of_char c in
      if (65 \<le> n \<and> n \<le> 90) \<or> (192 \<le> n \<and> n \<le> 222 \<and> n \<noteq> 215) then n + 32 else n)"
proof -
  have "(of_char c :: nat) < 256" by (rule nat_of_char_less_256)
  then show ?thesis
    by (auto simp: py_lower_char_def Let_def)
qed

lemma py_lower_char_idem [simp]: "py_lower_char (py_lower_char c) = py_lower_char c"
proof -
  have "(of_char (py_lower_char (py_lower_char c)) :: nat) = of_char (py_lower_char c)"
    by (simp add: of_char_py_lower_char Let_def)
  then show ?thesis by (simp only: of_char_eq_iff)
qed

lemma py_lower_idem [simp]: "py_lower (py_lower s) = py_lower s"
  by (simp add: py_lower_def)

lemma py_isspace_lower [simp]: "py_isspace (py_lower_char c) = py_isspace c"
  by (auto simp: py_isspace_def py_whitespace_def of_char_py_lower_char Let_def)

lemma py_lower_strip: "py_lower (py_strip s) = py_strip (py_lower s)"
proof -
  have dw: "map py_lower_char (dropWhile py_isspace xs) =
             dropWhile py_isspace (map py_lower_char xs)" for xs
    by (induction xs) simp_all
  show ?thesis
    by (simp add: py_lower_def py_strip_def py_lstrip_def py_rstrip_def rev_map flip: dw)
qed

lemma py_lower_Nil_iff [simp]: "py_lower s = [] \<longleftrightarrow> s = []"
  by (simp add: py_lower_def)

lemma length_py_lower [simp]: "length (py_lower s) = length s"
  by (simp add: py_lower_def)

subsection \<open>Digits\<close>

lemma is_digit_not_space: "is_digit c \<Longrightarrow> \<not> py_isspace c"
  by (auto simp: is_digit_def py_isspace_def py_whitespace_def)

lemma is_digit_not_sign:
  "is_digit c \<Longrightarrow> c \<noteq> CHR ''_'' \<and> c \<noteq> CHR ''+'' \<and> c \<noteq> CHR ''-''"
  by (auto simp: is_digit_def)

lemma py_strip_no_space: "\<forall>c \<in> set t. \<not> py_isspace c \<Longrightarrow> py_strip t = t"
  by (rule py_strip_fixed) (cases t, simp_all)

lemma py_int_strip [simp]: "py_int (py_strip s) = py_int s"
  by (simp add: py_int_def)

subsection \<open>Properties of the string built-ins\<close>

text \<open>
  \<open>str.strip()\<close> removes exactly the leading and trailing whitespace: the input is
  whitespace, then the result, then whitespace, and the result neither starts nor ends
  with whitespace.
\<close>

lemma py_strip_spec:
  "(\<exists>u v. s = u @ py_strip s @ v \<and> (\<forall>c \<in> set u. py_isspace c) \<and> (\<forall>c \<in> set v. py_isspace c)) \<and>
   (py_strip s = [] \<or> \<not> py_isspace (hd (py_strip s)) \<and> \<not> py_isspace (last (py_strip s))) \<and>
   py_strip (py_strip s) = py_strip s"
  using py_strip_decomp py_strip_edges by auto

end
