(* ===== verification/Registry.thy ===== *)
theory Registry
  imports PyStr
begin

text \<open>
  The in-memory student registry of \<open>src/lecture_3/student_grade_analyzer.py\<close>:
  the \<open>Student\<close> TypedDict as a record, the \<open>students\<close> list, the lookup
  \<open>find_student\<close>, and the state changes and computations of the four menu handlers
  with their input and output taken out (the handlers themselves, which read lines and
  print, are in theory \<open>Driver\<close>). The list is mutated in place by the source; here
  every operation returns the new list. The errors the handlers report and return on
  are the values of \<open>reg_error\<close>.
\<close>

record student =
  name :: string
  grades :: "int list"

type_synonym students = "student list"

subsection \<open>Lookup\<close>

definition find_student :: "students \<Rightarrow> string \<Rightarrow> student option" where
  "find_student students nm =
     (let normalized = py_lower (py_strip nm)
      in find (\<lambda>s. py_lower (name s) = normalized) students)"

text \<open>
  The position of the record \<open>find_student\<close> returns: the handler for grades appends to
  the record it found, which is the element of the list at that position.
\<close>

definition student_index :: "students \<Rightarrow> string \<Rightarrow> nat option" where
  "student_index students nm =
     (let normalized = py_lower (py_strip nm)
      in first_index (\<lambda>s. py_lower (name s) = normalized) students)"

subsection \<open>Adding a student\<close>

datatype reg_error = EmptyName | DuplicateName string | NoStudents | StudentNotFound string

definition add_student :: "students \<Rightarrow> string \<Rightarrow> reg_error + students" where
  "add_student students raw =
     (let nm = py_strip raw in
      if nm = [] then Inl EmptyName
      else if find_student students nm \<noteq> None then Inl (DuplicateName nm)
      else Inr (students @ [\<lparr>name = nm, grades = []\<rparr>]))"

subsection \<open>Adding grades\<close>

text \<open>One line of the grade loop: the sentinel, a rejected token or a grade.\<close>

datatype grade_token = Done | NotANumber | OutOfRange int | Grade int

definition classify_grade :: "string \<Rightarrow> grade_token" where
  "classify_grade line =
     (let grade_str = py_strip line in
      if py_lower grade_str = ''done'' then Done
      else case py_int grade_str of
             None \<Rightarrow> NotANumber
           | Some grade \<Rightarrow> if \<not> (0 \<le> grade \<and> grade \<le> 100) then OutOfRange grade else Grade grade)"

definition append_grade :: "nat \<Rightarrow> int \<Rightarrow> students \<Rightarrow> students" where
  "append_grade i g students =
     students[i := (students ! i)\<lparr>grades := grades (students ! i) @ [g]\<rparr>]"

text \<open>The grades a sequence of lines contributes: those accepted before the first sentinel.\<close>

fun accepted_grades :: "string list \<Rightarrow> int list" where
  "accepted_grades [] = []"
| "accepted_grades (l # ls) =
     (case classify_grade l of
        Done \<Rightarrow> []
      | Grade g \<Rightarrow> g # accepted_grades ls
      | _ \<Rightarrow> accepted_grades ls)"

text \<open>
  The effect of the grade handler on the registry once the loop has reached
  \<open>done\<close>: each accepted grade appended in turn to the record found, and the count
  \<open>len(grades) - initial_count\<close> it reports.
\<close>

definition add_grades :: "students \<Rightarrow> string \<Rightarrow> string list \<Rightarrow> reg_error + (students \<times> int)" where
  "add_grades students raw lines =
     (if students = [] then Inl NoStudents
      else
        let nm = py_strip raw in
        case student_index students nm of
          None \<Rightarrow> Inl (StudentNotFound nm)
        | Some i \<Rightarrow>
            let initial_count = length (grades (students ! i));
                students' = fold (append_grade i) (accepted_grades lines) students
            in Inr (students', int (length (grades (students' ! i))) - int initial_count))"

subsection \<open>Report\<close>

definition student_average :: "int list \<Rightarrow> rat option" where
  "student_average gs =
     (case py_truediv (of_int (sum_list gs)) (of_nat (length gs)) of
        Inl _ \<Rightarrow> None
      | Inr avg \<Rightarrow> Some avg)"

text \<open>
  What \<open>show_report\<close> prints: nothing but a notice for an empty registry; otherwise
  one row per student in list order with its average or N/A, then either the notice
  that no grades exist or the maximum, minimum and mean of the averages.
\<close>

datatype report =
    NoStudentsToReport
  | Report "(string \<times> rat option) list" "(rat \<times> rat \<times> rat) option"

definition build_report :: "students \<Rightarrow> report" where
  "build_report students =
     (if students = [] then NoStudentsToReport
      else
        let rows = map (\<lambda>s. (name s, student_average (grades s))) students;
            averages = List.map_filter (\<lambda>s. student_average (grades s)) students
        in Report rows
             (if averages = [] then None
              else Some (projr (py_max id averages), projr (py_min id averages),
                         sum_list averages / of_nat (length averages))))"

subsection \<open>Top performer\<close>

datatype top_result = NoStudentsFound | NoGradesAvailable | TopStudent string rat

definition grade_mean :: "student \<Rightarrow> rat" where
  "grade_mean s = of_int (sum_list (grades s)) / of_nat (length (grades s))"

definition top_performer :: "students \<Rightarrow> top_result" where
  "top_performer students =
     (if students = [] then NoStudentsFound
      else
        let students_with_grades = filter (\<lambda>s. grades s \<noteq> []) students in
        if students_with_grades = [] then NoGradesAvailable
        else
          let top_student = projr (py_max grade_mean students_with_grades)
          in TopStudent (name top_student) (grade_mean top_student))"

subsection \<open>Invariant\<close>

definition grade_ok :: "int \<Rightarrow> bool" where
  "grade_ok g \<longleftrightarrow> 0 \<le> g \<and> g \<le> 100"

definition student_ok :: "student \<Rightarrow> bool" where
  "student_ok s \<longleftrightarrow> name s \<noteq> [] \<and> py_strip (name s) = name s \<and> list_all grade_ok (grades s)"

definition registry_ok :: "students \<Rightarrow> bool" where
  "registry_ok students \<longleftrightarrow>
     list_all student_ok students \<and> distinct (map (\<lambda>s. py_lower (name s)) students)"

subsection \<open>Abstract registry\<close>

text \<open>
  What the registry promises: a finite map from normalised names (stripped, lower case)
  to the multiset of grades recorded for that name. Order of grades and of students is
  not part of the contract.
\<close>

definition reg_abs :: "students \<Rightarrow> string \<rightharpoonup> int multiset" where
  "reg_abs students = map_of (map (\<lambda>s. (py_lower (name s), mset (grades s))) students)"

subsection \<open>Lookup lemmas\<close>

lemma find_student_index:
  "find_student students nm = map_option ((!) students) (student_index students nm)"
  by (simp add: find_student_def student_index_def find_first_index)

lemma find_student_Some:
  "find_student students nm = Some s \<Longrightarrow>
     s \<in> set students \<and> py_lower (name s) = py_lower (py_strip nm)"
  unfolding find_student_def Let_def by (drule find_Some_prop) simp

lemma find_student_None:
  "find_student students nm = None \<longleftrightarrow>
     (\<forall>s \<in> set students. py_lower (name s) \<noteq> py_lower (py_strip nm))"
  by (simp add: find_student_def)

lemma student_index_Some:
  "student_index students nm = Some i \<Longrightarrow>
     i < length students \<and> py_lower (name (students ! i)) = py_lower (py_strip nm)"
  unfolding student_index_def Let_def by (drule first_index_Some) simp

lemma student_index_None:
  "student_index students nm = None \<longleftrightarrow> find_student students nm = None"
  by (simp add: find_student_index)

lemma normalize_strip_lower:
  "py_lower (py_strip (py_lower (py_strip nm))) = py_lower (py_strip nm)"
  by (simp add: py_lower_strip [symmetric])

lemma find_student_cong:
  "py_lower (py_strip nm) = py_lower (py_strip nm') \<Longrightarrow>
     find_student students nm = find_student students nm'"
  by (simp add: find_student_def)

lemma student_index_strip [simp]: "student_index students (py_strip nm) = student_index students nm"
  by (simp add: student_index_def)

lemma find_student_strip [simp]: "find_student students (py_strip nm) = find_student students nm"
  by (simp add: find_student_def)

subsection \<open>Adding a student: lemmas\<close>

lemma add_student_Inr:
  "add_student students raw = Inr students' \<longleftrightarrow>
     py_strip raw \<noteq> [] \<and> find_student students raw = None \<and>
     students' = students @ [\<lparr>name = py_strip raw, grades = []\<rparr>]"
  by (auto simp: add_student_def Let_def)

lemma add_student_Inl:
  "add_student students raw = Inl e \<longleftrightarrow>
     (py_strip raw = [] \<and> e = EmptyName) \<or>
     (py_strip raw \<noteq> [] \<and> find_student students raw \<noteq> None \<and> e = DuplicateName (py_strip raw))"
  by (auto simp: add_student_def Let_def)

lemma add_student_ok [inv_intros]:
  assumes "registry_ok students" and "add_student students raw = Inr students'"
  shows "registry_ok students'"
proof -
  from assms(2) have ne: "py_strip raw \<noteq> []" and nf: "find_student students raw = None"
    and s': "students' = students @ [\<lparr>name = py_strip raw, grades = []\<rparr>]"
    by (simp_all add: add_student_Inr)
  from nf have "py_lower (py_strip raw) \<notin> set (map (\<lambda>s. py_lower (name s)) students)"
    by (auto simp: find_student_None)
  with assms(1) ne s' show ?thesis
    by (simp add: registry_ok_def student_ok_def)
qed

lemma find_student_append_new:
  assumes "find_student students raw = None"
  shows "find_student (students @ [\<lparr>name = py_strip raw, grades = []\<rparr>]) nm =
           (if py_lower (py_strip nm) = py_lower (py_strip raw)
            then Some \<lparr>name = py_strip raw, grades = []\<rparr> else find_student students nm)"
proof -
  have nr: "find (\<lambda>s. py_lower (name s) = py_lower (py_strip raw)) students = None"
    using assms by (simp add: find_student_def)
  show ?thesis
  proof (cases "find_student students nm")
    case None
    then have "find (\<lambda>s. py_lower (name s) = py_lower (py_strip nm)) students = None"
      by (simp add: find_student_def)
    with nr show ?thesis
      by (simp add: find_student_def find_append_eq Let_def del: find_None_iff')
  next
    case (Some s)
    with find_student_Some [OF Some] assms show ?thesis
      by (auto simp: find_student_def find_student_None find_append_eq Let_def)
  qed
qed

subsection \<open>Adding grades: lemmas\<close>

lemma classify_grade_Grade: "classify_grade l = Grade g \<Longrightarrow> grade_ok g"
  by (auto simp: classify_grade_def grade_ok_def Let_def split: if_splits option.splits)

lemma accepted_grades_ok: "list_all grade_ok (accepted_grades lines)"
  by (induction lines rule: accepted_grades.induct)
     (auto split: grade_token.split dest: classify_grade_Grade)

lemma accepted_grades_append_Done:
  "classify_grade l = Done \<Longrightarrow> accepted_grades (ls @ l # rest) = accepted_grades (ls @ [l])"
  by (induction ls rule: accepted_grades.induct) (auto split: grade_token.split)

lemma length_append_grade [simp]: "length (append_grade i g students) = length students"
  by (simp add: append_grade_def)

lemma fold_append_grade:
  "i < length students \<Longrightarrow>
     fold (append_grade i) gs students =
       students[i := (students ! i)\<lparr>grades := grades (students ! i) @ gs\<rparr>]"
  by (induction gs arbitrary: students) (simp_all add: append_grade_def)

lemma names_update_grades [simp]:
  "i < length students \<Longrightarrow>
     map (\<lambda>s. py_lower (name s)) (students[i := (students ! i)\<lparr>grades := gs\<rparr>]) =
     map (\<lambda>s. py_lower (name s)) students"
  by (simp add: map_update) (metis list_update_id nth_map)

lemma registry_ok_update_grades:
  assumes "registry_ok students" and "i < length students" and "list_all grade_ok gs"
  shows "registry_ok (students[i := (students ! i)\<lparr>grades := grades (students ! i) @ gs\<rparr>])"
proof -
  from assms(1,2) have "student_ok (students ! i)"
    by (simp add: registry_ok_def list_all_length)
  with assms(3) have "student_ok ((students ! i)\<lparr>grades := grades (students ! i) @ gs\<rparr>)"
    by (simp add: student_ok_def)
  with assms show ?thesis
    by (auto simp: registry_ok_def list_all_length nth_list_update)
qed

lemma append_grade_ok [inv_intros]:
  "registry_ok students \<Longrightarrow> i < length students \<Longrightarrow> grade_ok g \<Longrightarrow>
     registry_ok (append_grade i g students)"
  unfolding append_grade_def by (drule registry_ok_update_grades [of _ i "[g]"]) simp_all

lemma add_grades_Inr:
  assumes "add_grades students raw lines = Inr (students', k)"
  shows "\<exists>i. student_index students raw = Some i \<and> i < length students \<and>
           students' = students[i := (students ! i)\<lparr>grades := grades (students ! i) @ accepted_grades lines\<rparr>] \<and>
           k = int (length (accepted_grades lines))"
proof -
  from assms obtain i where i: "student_index students raw = Some i"
    by (auto simp: add_grades_def Let_def split: if_splits option.splits)
  then have lt: "i < length students" by (simp add: student_index_Some)
  then have "students \<noteq> []" by auto
  with assms i lt show ?thesis
    by (auto simp: add_grades_def Let_def fold_append_grade)
qed

lemma add_grades_ok [inv_intros]:
  "registry_ok students \<Longrightarrow> add_grades students raw lines = Inr (students', k) \<Longrightarrow>
     registry_ok students'"
  by (auto dest!: add_grades_Inr intro: registry_ok_update_grades accepted_grades_ok)

lemma reg_abs_find:
  "reg_abs students (py_lower (py_strip nm)) =
     map_option (\<lambda>s. mset (grades s)) (find_student students nm)"
  by (induction students) (auto simp: reg_abs_def find_student_def)

lemma reg_abs_update_grades:
  assumes "registry_ok students" and "i < length students"
  shows "reg_abs (students[i := (students ! i)\<lparr>grades := gs\<rparr>]) =
           (reg_abs students)(py_lower (name (students ! i)) \<mapsto> mset gs)"
proof -
  let ?f = "\<lambda>s. (py_lower (name s), mset (grades s))"
  have d: "distinct (map fst (map ?f students))"
    using assms(1) by (simp add: registry_ok_def comp_def)
  have "map ?f (students[i := (students ! i)\<lparr>grades := gs\<rparr>]) =
          (map ?f students)[i := (fst (map ?f students ! i), mset gs)]"
    using assms(2) by (simp add: map_update)
  with map_of_list_update [OF d, of i "mset gs"] assms(2) show ?thesis
    by (simp add: reg_abs_def)
qed

lemma average_sum_mset:
  "student_average gs = (if size (mset gs) = 0 then None
                         else Some (of_int (sum_mset (mset gs)) / of_nat (size (mset gs))))"
  by (simp add: student_average_def sum_mset_sum_list)

subsection \<open>Averages and report: lemmas\<close>

lemma sum_list_of_int: "sum_list (map of_int gs) = (of_int (sum_list gs) :: rat)"
  by (induction gs) simp_all

lemma student_average_Some:
  "gs \<noteq> [] \<Longrightarrow> student_average gs = Some (of_int (sum_list gs) / of_nat (length gs))"
  by (simp add: student_average_def)

lemma student_average_Nil [simp]: "student_average [] = None"
  by (simp add: student_average_def)

lemma student_average_None [simp]: "student_average gs = None \<longleftrightarrow> gs = []"
  by (simp add: student_average_def py_truediv_def)

lemma average_bounds:
  assumes "list_all grade_ok gs" and "gs \<noteq> []"
  shows "(0 :: rat) \<le> of_int (sum_list gs) / of_nat (length gs) \<and>
         (of_int (sum_list gs) / of_nat (length gs) :: rat) \<le> 100"
proof -
  have "\<forall>x \<in> set (map of_int gs). (0 :: rat) \<le> x \<and> x \<le> 100"
    using assms(1) by (auto simp: list_all_iff grade_ok_def)
  with assms(2) have "0 \<le> mean (map of_int gs) \<and> mean (map of_int gs) \<le> (100 :: rat)"
    by (intro mean_bounds) simp_all
  then show ?thesis by (simp add: mean_def sum_list_of_int)
qed

lemma set_map_filter_average:
  "set (List.map_filter (\<lambda>s. student_average (grades s)) students) =
     {a. \<exists>s \<in> set students. student_average (grades s) = Some a}"
  by (induction students) (auto simp: List.map_filter_simps split: option.splits)

lemma map_filter_average_Nil:
  "List.map_filter (\<lambda>s. student_average (grades s)) students = [] \<longleftrightarrow>
     (\<forall>s \<in> set students. grades s = [])"
  by (induction students) (auto simp: List.map_filter_simps split: option.splits)

lemma registry_average_bounds:
  assumes "registry_ok students"
    and "a \<in> set (List.map_filter (\<lambda>s. student_average (grades s)) students)"
  shows "0 \<le> a \<and> a \<le> 100"
proof -
  from assms(2) obtain s where s: "s \<in> set students" and a: "student_average (grades s) = Some a"
    by (auto simp: set_map_filter_average)
  then have ne: "grades s \<noteq> []" by auto
  from assms(1) s have "list_all grade_ok (grades s)"
    by (simp add: registry_ok_def student_ok_def list_all_iff)
  with ne a show ?thesis using average_bounds [of "grades s"] by (simp add: student_average_Some)
qed

lemma py_max_id:
  assumes "xs \<noteq> []"
  shows "projr (py_max id xs) \<in> set xs \<and> (\<forall>a \<in> set xs. a \<le> projr (py_max id xs))"
proof -
  obtain a l where xs: "xs = a # l" using assms by (cases xs) auto
  have "max_scan id a l \<in> insert a (set l)" by (rule max_scan_mem)
  moreover have "\<forall>y \<in> insert a (set l). y \<le> max_scan id a l"
    using max_scan_upper [where k = id and m = a and xs = l] by simp
  ultimately show ?thesis using xs by simp
qed

lemma py_min_id:
  assumes "xs \<noteq> []"
  shows "projr (py_min id xs) \<in> set xs \<and> (\<forall>a \<in> set xs. projr (py_min id xs) \<le> a)"
proof -
  obtain a l where xs: "xs = a # l" using assms by (cases xs) auto
  have "min_scan id a l \<in> insert a (set l)" by (rule min_scan_mem)
  moreover have "\<forall>y \<in> insert a (set l). min_scan id a l \<le> y"
    using min_scan_lower [where k = id and m = a and xs = l] by simp
  ultimately show ?thesis using xs by simp
qed

lemma build_report_Some:
  assumes "build_report students = Report rows (Some (mx, mn, ov))"
  defines "avgs \<equiv> List.map_filter (\<lambda>s. student_average (grades s)) students"
  shows "avgs \<noteq> [] \<and> mx = projr (py_max id avgs) \<and> mn = projr (py_min id avgs) \<and>
         ov = mean avgs \<and> rows = map (\<lambda>s. (name s, student_average (grades s))) students"
  using assms by (auto simp: build_report_def mean_def Let_def split: if_splits)

lemma reg_abs_append_new:
  assumes "find_student students raw = None"
  shows "reg_abs (students @ [\<lparr>name = py_strip raw, grades = []\<rparr>]) =
           (reg_abs students)(py_lower (py_strip raw) \<mapsto> {#})"
proof -
  from assms have "reg_abs students (py_lower (py_strip raw)) = None"
    by (simp add: reg_abs_find)
  then show ?thesis
    by (auto simp: reg_abs_def fun_eq_iff map_add_def split: option.split)
qed

lemma top_performer_TopStudent:
  assumes "top_performer students = TopStudent n a"
  defines "ws \<equiv> filter (\<lambda>s. grades s \<noteq> []) students"
  shows "ws \<noteq> [] \<and> n = name (projr (py_max grade_mean ws)) \<and>
         a = grade_mean (projr (py_max grade_mean ws))"
  using assms by (auto simp: top_performer_def Let_def split: if_splits)

subsection \<open>Properties of the registry operations\<close>

text \<open>
  C1. Every state change of the registry keeps its invariant: names are non-empty,
  stripped and distinct after lower-casing, and every grade lies in [0, 100]. Adding a
  student and adding grades are the only operations that change the list.
\<close>

theorem registry_operations_keep_invariant:
  assumes "registry_ok students"
  shows "(add_student students raw = Inr s1 \<longrightarrow> registry_ok s1) \<and>
         (add_grades students raw' lines = Inr (s2, k) \<longrightarrow> registry_ok s2)"
  using assms add_student_ok add_grades_ok by blast

theorem registry_operations_keep_invariant_witness:
  "registry_ok [\<lparr>name = ''Ann'', grades = [90]\<rparr>, \<lparr>name = ''Bob'', grades = []\<rparr>] \<and>
   registry_ok [\<lparr>name = ''Ann'', grades = [90, 50]\<rparr>]"
proof -
  have ok: "registry_ok [\<lparr>name = ''Ann'', grades = [90]\<rparr>]" by code_simp
  have a: "add_student [\<lparr>name = ''Ann'', grades = [90]\<rparr>] '' Bob '' =
             Inr [\<lparr>name = ''Ann'', grades = [90]\<rparr>, \<lparr>name = ''Bob'', grades = []\<rparr>]"
    by code_simp
  have g: "add_grades [\<lparr>name = ''Ann'', grades = [90]\<rparr>] ''ann'' [''50'', ''done''] =
             Inr ([\<lparr>name = ''Ann'', grades = [90, 50]\<rparr>], 1)"
    by code_simp
  show ?thesis
    using registry_operations_keep_invariant [OF ok, of "'' Bob ''" _ "''ann''" "[''50'', ''done'']"] a g
    by blast
qed

text \<open>
  C2. Adding a name whose stripped, lower-cased form is already registered fails with
  \<open>DuplicateName\<close>: the same normalised name is accepted once and rejected the second
  time.
\<close>

theorem add_student_duplicate_rejected:
  assumes "add_student students a = Inr s1"
    and "py_lower (py_strip b) = py_lower (py_strip a)"
  shows "add_student s1 b = Inl (DuplicateName (py_strip b))"
proof -
  from assms(1) have ne: "py_strip a \<noteq> []" and nf: "find_student students a = None"
    and s1: "s1 = students @ [\<lparr>name = py_strip a, grades = []\<rparr>]"
    by (simp_all add: add_student_Inr)
  from assms(2) ne have "py_strip b \<noteq> []"
    by (metis length_py_lower length_0_conv)
  moreover from nf assms(2) have "find_student s1 b \<noteq> None"
    by (simp add: s1 find_student_append_new)
  ultimately show ?thesis by (simp add: add_student_Inl)
qed

theorem add_student_duplicate_rejected_witness:
  "add_student [] ''Ann'' = Inr [\<lparr>name = ''Ann'', grades = []\<rparr>] \<and>
   add_student [\<lparr>name = ''Ann'', grades = []\<rparr>] '' aNN '' = Inl (DuplicateName ''aNN'')"
proof -
  have a: "add_student [] ''Ann'' = Inr [\<lparr>name = ''Ann'', grades = []\<rparr>]" by code_simp
  have n: "py_lower (py_strip '' aNN '') = py_lower (py_strip ''Ann'')" by code_simp
  have s: "py_strip '' aNN '' = ''aNN''" by code_simp
  show ?thesis using add_student_duplicate_rejected [OF a n] a s by simp
qed

text \<open>
  C3. Two names that differ after normalisation and could each be added to the registry
  can both be added, one after the other, and each is then found by its own name with an
  empty grade list.
\<close>

theorem add_two_distinct_students:
  assumes "add_student students a = Inr s1" and "add_student students b = Inr s1'"
    and "py_lower (py_strip a) \<noteq> py_lower (py_strip b)"
  shows "\<exists>s2. add_student s1 b = Inr s2 \<and>
           find_student s2 a = Some \<lparr>name = py_strip a, grades = []\<rparr> \<and>
           find_student s2 b = Some \<lparr>name = py_strip b, grades = []\<rparr>"
proof -
  from assms(1) have nfa: "find_student students a = None"
    and s1: "s1 = students @ [\<lparr>name = py_strip a, grades = []\<rparr>]"
    by (simp_all add: add_student_Inr)
  from assms(2) have neb: "py_strip b \<noteq> []" and nfb: "find_student students b = None"
    by (simp_all add: add_student_Inr)
  from nfa nfb assms(3) have nfb1: "find_student s1 b = None"
    by (simp add: s1 find_student_append_new)
  let ?s2 = "s1 @ [\<lparr>name = py_strip b, grades = []\<rparr>]"
  have add: "add_student s1 b = Inr ?s2" using neb nfb1 by (simp add: add_student_Inr)
  have fa: "find_student s1 a = Some \<lparr>name = py_strip a, grades = []\<rparr>"
    using nfa by (simp add: s1 find_student_append_new)
  have "find_student ?s2 a = Some \<lparr>name = py_strip a, grades = []\<rparr>"
    using nfb1 fa assms(3) by (simp add: find_student_append_new)
  moreover have "find_student ?s2 b = Some \<lparr>name = py_strip b, grades = []\<rparr>"
    using nfb1 by (simp add: find_student_append_new)
  ultimately show ?thesis using add by blast
qed

theorem add_two_distinct_students_witness:
  "add_student [\<lparr>name = ''Ann'', grades = []\<rparr>] ''Bob'' =
     Inr [\<lparr>name = ''Ann'', grades = []\<rparr>, \<lparr>name = ''Bob'', grades = []\<rparr>] \<and>
   find_student [\<lparr>name = ''Ann'', grades = []\<rparr>, \<lparr>name = ''Bob'', grades = []\<rparr>] ''ann'' =
     Some \<lparr>name = ''Ann'', grades = []\<rparr> \<and>
   find_student [\<lparr>name = ''Ann'', grades = []\<rparr>, \<lparr>name = ''Bob'', grades = []\<rparr>] ''BOB'' =
     Some \<lparr>name = ''Bob'', grades = []\<rparr>"
proof -
  have a: "add_student [] ''Ann'' = Inr [\<lparr>name = ''Ann'', grades = []\<rparr>]" by code_simp
  have b: "add_student [] ''Bob'' = Inr [\<lparr>name = ''Bob'', grades = []\<rparr>]" by code_simp
  have d: "py_lower (py_strip ''Ann'') \<noteq> py_lower (py_strip ''Bob'')" by code_simp
  have sa: "py_strip ''Ann'' = ''Ann''" and sb: "py_strip ''Bob'' = ''Bob''" by code_simp+
  have na: "find_student [\<lparr>name = ''Ann'', grades = []\<rparr>, \<lparr>name = ''Bob'', grades = []\<rparr>] ''ann'' =
      find_student [\<lparr>name = ''Ann'', grades = []\<rparr>, \<lparr>name = ''Bob'', grades = []\<rparr>] ''Ann''"
    by (rule find_student_cong) code_simp
  have nb: "find_student [\<lparr>name = ''Ann'', grades = []\<rparr>, \<lparr>name = ''Bob'', grades = []\<rparr>] ''BOB'' =
      find_student [\<lparr>name = ''Ann'', grades = []\<rparr>, \<lparr>name = ''Bob'', grades = []\<rparr>] ''Bob''"
    by (rule find_student_cong) code_simp
  from add_two_distinct_students [OF a b d] obtain s2
    where "add_student [\<lparr>name = ''Ann'', grades = []\<rparr>] ''Bob'' = Inr s2"
      and "find_student s2 ''Ann'' = Some \<lparr>name = ''Ann'', grades = []\<rparr>"
      and "find_student s2 ''Bob'' = Some \<lparr>name = ''Bob'', grades = []\<rparr>"
    using sa sb by auto
  moreover have "add_student [\<lparr>name = ''Ann'', grades = []\<rparr>] ''Bob'' =
     Inr [\<lparr>name = ''Ann'', grades = []\<rparr>, \<lparr>name = ''Bob'', grades = []\<rparr>]" by code_simp
  ultimately show ?thesis using na nb by simp
qed

text \<open>
  C4. A name is rejected as empty exactly when every character of the raw input is
  whitespace in Python's sense (so an input of tabs or non-breaking spaces is empty too).
\<close>

theorem add_student_blank_name:
  "add_student students raw = Inl EmptyName \<longleftrightarrow> (\<forall>c \<in> set raw. py_isspace c)"
  by (auto simp: add_student_Inl py_strip_Nil_iff)

theorem add_student_blank_name_witness:
  "add_student [] '' \<newline>'' = Inl EmptyName"
proof -
  have "\<forall>c \<in> set '' \<newline>''. py_isspace c" by code_simp
  then show ?thesis using add_student_blank_name [of "[]" "'' \<newline>''"] by simp
qed

text \<open>
  C5. Adding grades changes exactly the record \<open>find_student\<close> returns: its grades are
  extended by the accepted tokens in input order, its name is kept, every other record and
  the length of the list are unchanged, and the reported count is the number of accepted
  tokens.
\<close>

theorem add_grades_appends_accepted:
  assumes "add_grades students raw lines = Inr (s', k)"
  shows "\<exists>i < length students. find_student students raw = Some (students ! i) \<and>
           grades (s' ! i) = grades (students ! i) @ accepted_grades lines \<and>
           name (s' ! i) = name (students ! i) \<and> length s' = length students \<and>
           (\<forall>j < length students. j \<noteq> i \<longrightarrow> s' ! j = students ! j) \<and>
           k = int (length (accepted_grades lines))"
proof -
  from add_grades_Inr [OF assms] obtain i where idx: "student_index students raw = Some i"
    and lt: "i < length students"
    and s': "s' = students[i := (students ! i)\<lparr>grades := grades (students ! i) @ accepted_grades lines\<rparr>]"
    and k: "k = int (length (accepted_grades lines))"
    by blast
  from idx have "find_student students raw = Some (students ! i)"
    by (simp add: find_student_index)
  with lt s' k show ?thesis by (intro exI [of _ i]) auto
qed

theorem add_grades_appends_accepted_witness:
  "add_grades [\<lparr>name = ''Ann'', grades = [90]\<rparr>, \<lparr>name = ''Bob'', grades = []\<rparr>] '' BOB''
      [''50'', ''x'', ''150'', ''DONE'', ''7''] =
     Inr ([\<lparr>name = ''Ann'', grades = [90]\<rparr>, \<lparr>name = ''Bob'', grades = [50]\<rparr>], 1) \<and>
   accepted_grades [''50'', ''x'', ''150'', ''DONE'', ''7''] = [50]"
proof -
  have g: "add_grades [\<lparr>name = ''Ann'', grades = [90]\<rparr>, \<lparr>name = ''Bob'', grades = []\<rparr>] '' BOB''
      [''50'', ''x'', ''150'', ''DONE'', ''7''] =
     Inr ([\<lparr>name = ''Ann'', grades = [90]\<rparr>, \<lparr>name = ''Bob'', grades = [50]\<rparr>], 1)"
    by code_simp
  have a: "accepted_grades [''50'', ''x'', ''150'', ''DONE'', ''7''] = [50]" by code_simp
  from add_grades_appends_accepted [OF g] a g show ?thesis by simp
qed

text \<open>
  C6. The grade handler's two early returns: on an empty registry it fails with
  \<open>NoStudents\<close>, and when no record matches the stripped name it fails with
  \<open>StudentNotFound\<close>; in both cases no registry is produced.
\<close>

theorem add_grades_errors:
  "add_grades [] raw lines = Inl NoStudents \<and>
   (students \<noteq> [] \<longrightarrow> find_student students raw = None \<longrightarrow>
      add_grades students raw lines = Inl (StudentNotFound (py_strip raw)))"
proof -
  have "student_index students raw = None" if "find_student students raw = None"
    using that by (simp add: student_index_None)
  then show ?thesis by (auto simp: add_grades_def Let_def)
qed

theorem add_grades_errors_witness:
  "add_grades [\<lparr>name = ''Ann'', grades = []\<rparr>] '' Zed '' [''50'', ''done''] = Inl (StudentNotFound ''Zed'')"
proof -
  have f: "find_student [\<lparr>name = ''Ann'', grades = []\<rparr>] '' Zed '' = None" by code_simp
  have s: "py_strip '' Zed '' = ''Zed''" by code_simp
  show ?thesis
    using add_grades_errors [of "'' Zed ''" "[''50'', ''done'']" "[\<lparr>name = ''Ann'', grades = []\<rparr>]"] f s
    by simp
qed

text \<open>
  C7. One token followed by \<open>done\<close>: the token adds exactly one grade when
  \<open>int()\<close> parses it to a value in [0, 100], and none when it does not parse or is
  out of range.
\<close>

theorem single_grade_token:
  assumes "py_lower (py_strip l) \<noteq> ''done''"
  shows "accepted_grades [l, ''done''] =
           (case py_int l of None \<Rightarrow> [] | Some g \<Rightarrow> if 0 \<le> g \<and> g \<le> 100 then [g] else [])"
proof -
  have d: "classify_grade ''done'' = Done" by code_simp
  have c: "classify_grade l =
      (case py_int l of None \<Rightarrow> NotANumber
       | Some g \<Rightarrow> if \<not> (0 \<le> g \<and> g \<le> 100) then OutOfRange g else Grade g)"
    using assms by (simp add: classify_grade_def)
  show ?thesis by (simp add: c d split: option.split)
qed

theorem single_grade_token_witness:
  "accepted_grades [''+1_00'', ''done''] = [100] \<and> accepted_grades [''101'', ''done''] = []"
proof -
  have a: "py_lower (py_strip ''+1_00'') \<noteq> ''done''" and b: "py_lower (py_strip ''101'') \<noteq> ''done''"
    by code_simp+
  have pa: "py_int ''+1_00'' = Some 100" and pb: "py_int ''101'' = Some 101" by code_simp+
  show ?thesis using single_grade_token [OF a] single_grade_token [OF b] pa pb by simp
qed

text \<open>
  C8. The grade loop stops at the first sentinel: tokens after a line that reads
  \<open>done\<close> contribute nothing, and every grade it accepts lies in [0, 100].
\<close>

theorem grade_loop_sentinel_and_range:
  "classify_grade l = Done \<Longrightarrow>
     accepted_grades (ls @ l # rest) = accepted_grades ls \<and>
     (\<forall>g \<in> set (accepted_grades (ls @ l # rest)). 0 \<le> g \<and> g \<le> 100)"
proof -
  assume d: "classify_grade l = Done"
  have "accepted_grades (ls @ l # rest) = accepted_grades ls"
    by (induction ls rule: accepted_grades.induct) (simp_all add: d split: grade_token.split)
  moreover have "list_all grade_ok (accepted_grades ls)" by (rule accepted_grades_ok)
  ultimately show ?thesis by (simp add: list_all_iff grade_ok_def)
qed

theorem grade_loop_sentinel_and_range_witness:
  "accepted_grades [''5'', ''Done'', ''6''] = [5]"
proof -
  have d: "classify_grade ''Done'' = Done" by code_simp
  have a: "accepted_grades [''5''] = [5]" by code_simp
  have "accepted_grades ([''5''] @ ''Done'' # [''6'']) = accepted_grades [''5'']"
    using grade_loop_sentinel_and_range [OF d, of "[''5'']" "[''6'']"] by (rule conjunct1)
  with a show ?thesis by (simp only: append.simps)
qed

text \<open>
  C9. Lookup ignores case and surrounding whitespace of the query, and on a well-formed
  registry it returns exactly the student whose lower-cased name equals the stripped,
  lower-cased query: it finds that student whenever it is registered, and no other.
\<close>

theorem find_student_normalised:
  "find_student students (py_lower nm) = find_student students nm \<and>
   find_student students (py_strip nm) = find_student students nm \<and>
   (registry_ok students \<longrightarrow> s \<in> set students \<longrightarrow>
      (find_student students nm = Some s \<longleftrightarrow> py_lower (name s) = py_lower (py_strip nm)))"
proof -
  have "py_lower (py_strip (py_lower nm)) = py_lower (py_strip nm)"
    by (simp add: py_lower_strip [symmetric])
  then have 1: "find_student students (py_lower nm) = find_student students nm"
    by (rule find_student_cong)
  have 2: "find_student students (py_strip nm) = find_student students nm" by simp
  have 3: "find_student students nm = Some s \<longleftrightarrow> py_lower (name s) = py_lower (py_strip nm)"
    if ok: "registry_ok students" and s: "s \<in> set students"
  proof
    assume "find_student students nm = Some s"
    then show "py_lower (name s) = py_lower (py_strip nm)" using find_student_Some by blast
  next
    assume eq: "py_lower (name s) = py_lower (py_strip nm)"
    with s obtain s' where f: "find_student students nm = Some s'"
      by (cases "find_student students nm") (auto simp: find_student_None)
    from find_student_Some [OF f] eq have "s' \<in> set students" and "py_lower (name s') = py_lower (name s)"
      by simp_all
    moreover have "inj_on (\<lambda>s. py_lower (name s)) (set students)"
      using ok by (simp add: registry_ok_def distinct_map)
    ultimately have "s' = s" using s by (auto dest: inj_onD)
    with f show "find_student students nm = Some s" by simp
  qed
  from 1 2 3 show ?thesis by blast
qed

theorem find_student_normalised_witness:
  "find_student [\<lparr>name = ''Ann'', grades = [1]\<rparr>, \<lparr>name = ''Bob'', grades = []\<rparr>] '' bOB '' =
     Some \<lparr>name = ''Bob'', grades = []\<rparr> \<and>
   find_student [\<lparr>name = ''Ann'', grades = [1]\<rparr>, \<lparr>name = ''Bob'', grades = []\<rparr>] ''ann'' \<noteq>
     Some \<lparr>name = ''Bob'', grades = []\<rparr>"
proof -
  have ok: "registry_ok [\<lparr>name = ''Ann'', grades = [1]\<rparr>, \<lparr>name = ''Bob'', grades = []\<rparr>]" by code_simp
  have e1: "py_lower ''Bob'' = py_lower (py_strip '' bOB '')" by code_simp
  have e2: "py_lower ''Bob'' \<noteq> py_lower (py_strip ''ann'')" by code_simp
  show ?thesis
    using find_student_normalised [where students = "[\<lparr>name = ''Ann'', grades = [1]\<rparr>, \<lparr>name = ''Bob'', grades = []\<rparr>]"
            and nm = "'' bOB ''" and s = "\<lparr>name = ''Bob'', grades = []\<rparr>"]
          find_student_normalised [where students = "[\<lparr>name = ''Ann'', grades = [1]\<rparr>, \<lparr>name = ''Bob'', grades = []\<rparr>]"
            and nm = "''ann''" and s = "\<lparr>name = ''Bob'', grades = []\<rparr>"]
          ok e1 e2
    by simp
qed

text \<open>
  C10. Refinement of adding a student: on the abstract registry (normalised name to
  multiset of grades) a successful addition inserts a fresh key with the empty multiset.
\<close>

theorem add_student_refines:
  assumes "add_student students raw = Inr s'"
  shows "reg_abs students (py_lower (py_strip raw)) = None \<and>
         reg_abs s' = (reg_abs students)(py_lower (py_strip raw) \<mapsto> {#})"
proof -
  from assms have nf: "find_student students raw = None"
    and s': "s' = students @ [\<lparr>name = py_strip raw, grades = []\<rparr>]"
    by (simp_all add: add_student_Inr)
  from nf have "reg_abs students (py_lower (py_strip raw)) = None" by (simp add: reg_abs_find)
  with nf s' show ?thesis by (simp add: reg_abs_append_new)
qed

theorem add_student_refines_witness:
  "reg_abs [] ''ann'' = None \<and> reg_abs [\<lparr>name = ''Ann'', grades = []\<rparr>] ''ann'' = Some {#}"
proof -
  have a: "add_student [] '' Ann'' = Inr [\<lparr>name = ''Ann'', grades = []\<rparr>]" by code_simp
  have n: "py_lower (py_strip '' Ann'') = ''ann''" by code_simp
  show ?thesis using add_student_refines [OF a] n by simp
qed

text \<open>
  C11. Refinement of adding grades: on a well-formed registry, a successful call adds the
  multiset of accepted grades to the multiset stored under the normalised name, and
  changes no other key.
\<close>

theorem add_grades_refines:
  assumes "registry_ok students" and "add_grades students raw lines = Inr (s', k)"
  shows "\<exists>m. reg_abs students (py_lower (py_strip raw)) = Some m \<and>
           reg_abs s' = (reg_abs students)(py_lower (py_strip raw) \<mapsto> m + mset (accepted_grades lines))"
proof -
  from add_grades_Inr [OF assms(2)] obtain i where idx: "student_index students raw = Some i"
    and lt: "i < length students"
    and s': "s' = students[i := (students ! i)\<lparr>grades := grades (students ! i) @ accepted_grades lines\<rparr>]"
    by blast
  from idx have key: "py_lower (name (students ! i)) = py_lower (py_strip raw)"
    by (simp add: student_index_Some)
  from idx have "reg_abs students (py_lower (py_strip raw)) = Some (mset (grades (students ! i)))"
    by (simp add: reg_abs_find find_student_index)
  moreover have "reg_abs s' = (reg_abs students)(py_lower (py_strip raw) \<mapsto>
                   mset (grades (students ! i)) + mset (accepted_grades lines))"
    using reg_abs_update_grades [OF assms(1) lt] key s' by simp
  ultimately show ?thesis by blast
qed

theorem add_grades_refines_witness:
  "reg_abs [\<lparr>name = ''Ann'', grades = [90, 50]\<rparr>] ''ann'' = Some {#90, 50#}"
proof -
  have ok: "registry_ok [\<lparr>name = ''Ann'', grades = [90]\<rparr>]" by code_simp
  have g: "add_grades [\<lparr>name = ''Ann'', grades = [90]\<rparr>] ''ANN'' [''50'', ''done''] =
             Inr ([\<lparr>name = ''Ann'', grades = [90, 50]\<rparr>], 1)" by code_simp
  have n: "py_lower (py_strip ''ANN'') = ''ann''" by code_simp
  have acc: "accepted_grades [''50'', ''done''] = [50]" by code_simp
  have n2: "py_lower ''Ann'' = ''ann''" by code_simp
  have r: "reg_abs [\<lparr>name = ''Ann'', grades = [90]\<rparr>] ''ann'' = Some {#90#}"
    by (simp add: reg_abs_def n2)
  from add_grades_refines [OF ok g] n acc r show ?thesis by (simp add: add_mset_commute)
qed

text \<open>
  C12. Refinement of lookup: the abstract registry's keys are the lower-cased stored
  names, and its value at a normalised query is the grade multiset of the record
  \<open>find_student\<close> returns (none when the lookup fails).
\<close>

theorem find_student_refines:
  "reg_abs students (py_lower (py_strip nm)) = map_option (\<lambda>s. mset (grades s)) (find_student students nm) \<and>
   dom (reg_abs students) = (\<lambda>s. py_lower (name s)) ` set students"
proof
  show "reg_abs students (py_lower (py_strip nm)) = map_option (\<lambda>s. mset (grades s)) (find_student students nm)"
    by (rule reg_abs_find)
  show "dom (reg_abs students) = (\<lambda>s. py_lower (name s)) ` set students"
    by (simp add: reg_abs_def dom_map_of_conv_image_fst image_image)
qed

text \<open>
  C13. A student's average is "N/A" (\<open>None\<close>) exactly when the student has no grades,
  never 0; otherwise it is the sum over the count, and for grades in [0, 100] it lies in
  [0, 100].
\<close>

theorem student_average_spec:
  assumes "list_all grade_ok gs"
  shows "(student_average gs = None \<longleftrightarrow> gs = []) \<and>
         (gs \<noteq> [] \<longrightarrow> (\<exists>a. student_average gs = Some a \<and>
             a = of_int (sum_list gs) / of_nat (length gs) \<and> 0 \<le> a \<and> a \<le> 100))"
  using assms average_bounds student_average_Some by simp

theorem student_average_spec_witness:
  "student_average [70, 80, 90] = Some 80 \<and> student_average [] = None"
proof -
  have ok: "list_all grade_ok [70, 80, 90]" by (simp add: grade_ok_def)
  from student_average_spec [OF ok] show ?thesis by simp
qed

text \<open>
  C14. The statistics of the report: the maximum and minimum printed are the largest and
  smallest per-student average, and the overall average is the mean of the per-student
  averages (an average of averages, not the mean of all grades pooled); the rows list
  every student in registry order.
\<close>

theorem build_report_statistics:
  assumes "build_report students = Report rows (Some (mx, mn, ov))"
  defines "avgs \<equiv> List.map_filter (\<lambda>s. student_average (grades s)) students"
  shows "mx \<in> set avgs \<and> (\<forall>a \<in> set avgs. a \<le> mx) \<and>
         mn \<in> set avgs \<and> (\<forall>a \<in> set avgs. mn \<le> a) \<and>
         ov = mean avgs \<and> rows = map (\<lambda>s. (name s, student_average (grades s))) students"
proof -
  from build_report_Some [OF assms(1)] have ne: "avgs \<noteq> []"
    and mx: "mx = projr (py_max id avgs)" and mn: "mn = projr (py_min id avgs)"
    and rest: "ov = mean avgs \<and> rows = map (\<lambda>s. (name s, student_average (grades s))) students"
    by (simp_all add: avgs_def)
  from py_max_id [OF ne] py_min_id [OF ne] mx mn rest show ?thesis by simp
qed

theorem build_report_statistics_witness:
  "build_report [\<lparr>name = ''A'', grades = [100]\<rparr>, \<lparr>name = ''B'', grades = [0, 0, 0, 100]\<rparr>] =
     Report [(''A'', Some 100), (''B'', Some 25)] (Some (100, 25, 125 / 2)) \<and>
   mean [100, 25] = 125 / 2"
proof -
  have r: "build_report [\<lparr>name = ''A'', grades = [100]\<rparr>, \<lparr>name = ''B'', grades = [0, 0, 0, 100]\<rparr>] =
     Report [(''A'', Some 100), (''B'', Some 25)] (Some (100, 25, 125 / 2))"
    by code_simp
  have a: "List.map_filter (\<lambda>s. student_average (grades s))
      [\<lparr>name = ''A'', grades = [100]\<rparr>, \<lparr>name = ''B'', grades = [0, 0, 0, 100::int]\<rparr>] = [100, 25]"
    by code_simp
  from build_report_statistics [OF r] a r show ?thesis by simp
qed

text \<open>
  C15. The report's cases: it is the "no students" notice exactly for the empty
  registry; for a non-empty registry it carries no statistics, only the "no grades yet"
  notice after every student shown as N/A, exactly when no student has a grade.
\<close>

theorem build_report_cases:
  "(build_report students = NoStudentsToReport \<longleftrightarrow> students = []) \<and>
   (students \<noteq> [] \<longrightarrow>
      (build_report students = Report (map (\<lambda>s. (name s, None)) students) None \<longleftrightarrow>
       (\<forall>s \<in> set students. grades s = [])))"
proof -
  have "build_report students = Report (map (\<lambda>s. (name s, None)) students) None"
    if ne: "students \<noteq> []" and e: "\<forall>s \<in> set students. grades s = []"
  proof -
    from e have "List.map_filter (\<lambda>s. student_average (grades s)) students = []"
      by (simp add: map_filter_average_Nil)
    moreover from e have "map (\<lambda>s. (name s, student_average (grades s))) students =
                            map (\<lambda>s. (name s, None)) students"
      by simp
    ultimately show ?thesis using ne by (simp add: build_report_def Let_def)
  qed
  moreover have "\<forall>s \<in> set students. grades s = []"
    if "students \<noteq> []" and "build_report students = Report rows None" for rows
    using that by (simp add: build_report_def Let_def map_filter_average_Nil split: if_splits)
  moreover have "build_report students = NoStudentsToReport \<longleftrightarrow> students = []"
    by (simp add: build_report_def Let_def)
  ultimately show ?thesis by blast
qed

theorem build_report_cases_witness:
  "build_report [\<lparr>name = ''Ann'', grades = []\<rparr>] = Report [(''Ann'', None)] None"
  using build_report_cases [of "[\<lparr>name = ''Ann'', grades = []\<rparr>]"] by simp

text \<open>
  C16. On a well-formed registry the report's statistics are ordered and bounded:
  0 \<open>\<le>\<close> minimum \<open>\<le>\<close> maximum \<open>\<le>\<close> 100, and the overall average lies in
  [0, 100]. These bounds hold of the program's floats too: each average is a rounded
  quotient of a sum in [0, 100 \<open>\<cdot>\<close> n] by n, rounding is monotone and 0 and 100 are
  exact. The overall average is not claimed to lie between minimum and maximum: with
  float sums it can exceed the maximum (three averages of 0.1 give 0.10000000000000002).
\<close>

theorem build_report_bounds:
  assumes "registry_ok students" and "build_report students = Report rows (Some (mx, mn, ov))"
  shows "0 \<le> mn \<and> mn \<le> mx \<and> mx \<le> 100 \<and> 0 \<le> ov \<and> ov \<le> 100"
proof -
  let ?avgs = "List.map_filter (\<lambda>s. student_average (grades s)) students"
  from build_report_Some [OF assms(2)] have ne: "?avgs \<noteq> []"
    and mx: "mx = projr (py_max id ?avgs)" and mn: "mn = projr (py_min id ?avgs)"
    and ov: "ov = mean ?avgs"
    by simp_all
  from py_max_id [OF ne] mx have mx_in: "mx \<in> set ?avgs" and mx_up: "\<forall>a \<in> set ?avgs. a \<le> mx"
    by simp_all
  from py_min_id [OF ne] mn have mn_in: "mn \<in> set ?avgs" and mn_lo: "\<forall>a \<in> set ?avgs. mn \<le> a"
    by simp_all
  have "mn \<le> mean ?avgs \<and> mean ?avgs \<le> mx"
    using ne mx_up mn_lo by (intro mean_bounds) auto
  moreover have "0 \<le> mn" and "mx \<le> 100"
    using registry_average_bounds [OF assms(1)] mn_in mx_in by auto
  ultimately show ?thesis using ov by simp
qed

theorem build_report_bounds_witness:
  "build_report [\<lparr>name = ''A'', grades = [90, 100]\<rparr>, \<lparr>name = ''B'', grades = [60, 70]\<rparr>] =
     Report [(''A'', Some 95), (''B'', Some 65)] (Some (95, 65, 80)) \<and> (65::rat) \<le> 95 \<and> (80::rat) \<le> 100"
proof -
  have ok: "registry_ok [\<lparr>name = ''A'', grades = [90, 100]\<rparr>, \<lparr>name = ''B'', grades = [60, 70]\<rparr>]"
    by code_simp
  have r: "build_report [\<lparr>name = ''A'', grades = [90, 100]\<rparr>, \<lparr>name = ''B'', grades = [60, 70]\<rparr>] =
     Report [(''A'', Some 95), (''B'', Some 65)] (Some (95, 65, 80))"
    by code_simp
  from build_report_bounds [OF ok r] r show ?thesis by simp
qed

text \<open>
  C17. The top performer is the first student, in registry order among those with
  grades, whose average is maximal: every earlier student with grades has a strictly
  smaller average and no student with grades has a larger one. Ties go to the student
  added first.
\<close>

theorem top_performer_first_maximum:
  assumes "top_performer students = TopStudent n a"
  defines "ws \<equiv> filter (\<lambda>s. grades s \<noteq> []) students"
  shows "\<exists>i < length ws. n = name (ws ! i) \<and> a = grade_mean (ws ! i) \<and>
           (\<forall>j < i. grade_mean (ws ! j) < a) \<and> (\<forall>t \<in> set ws. grade_mean t \<le> a)"
proof -
  from top_performer_TopStudent [OF assms(1)] have ne: "ws \<noteq> []"
    and n: "n = name (projr (py_max grade_mean ws))" and a: "a = grade_mean (projr (py_max grade_mean ws))"
    by (simp_all add: ws_def)
  then obtain w rest where ws: "ws = w # rest" by (cases ws) auto
  then have top: "projr (py_max grade_mean ws) = max_scan grade_mean w rest" by simp
  from max_scan_first [where k = grade_mean and m = w and xs = rest] obtain i where i: "i < length (w # rest)"
    and at: "max_scan grade_mean w rest = (w # rest) ! i"
    and before: "\<forall>j < i. grade_mean ((w # rest) ! j) < grade_mean (max_scan grade_mean w rest)"
    by blast
  have "\<forall>t \<in> set ws. grade_mean t \<le> grade_mean (max_scan grade_mean w rest)"
    using max_scan_upper [where k = grade_mean and m = w and xs = rest] ws by simp
  with i at before n a top ws show ?thesis by (intro exI [of _ i]) simp
qed

theorem top_performer_first_maximum_witness:
  "top_performer [\<lparr>name = ''A'', grades = [80]\<rparr>, \<lparr>name = ''B'', grades = [80]\<rparr>] = TopStudent ''A'' 80"
proof -
  have t: "top_performer [\<lparr>name = ''A'', grades = [80]\<rparr>, \<lparr>name = ''B'', grades = [80]\<rparr>] =
             TopStudent ''A'' 80" by code_simp
  from top_performer_first_maximum [OF t] t show ?thesis by simp
qed

text \<open>
  C18. The top-performer query's two notices: "no students" exactly for the empty
  registry, "no grades available" exactly when the registry is non-empty and nobody has
  a grade.
\<close>

theorem top_performer_notices:
  "(top_performer students = NoStudentsFound \<longleftrightarrow> students = []) \<and>
   (top_performer students = NoGradesAvailable \<longleftrightarrow>
      students \<noteq> [] \<and> (\<forall>s \<in> set students. grades s = []))"
  by (auto simp: top_performer_def Let_def filter_empty_conv)

theorem top_performer_notices_witness:
  "top_performer [\<lparr>name = ''A'', grades = []\<rparr>] = NoGradesAvailable"
  using top_performer_notices [of "[\<lparr>name = ''A'', grades = []\<rparr>]"] by simp

text \<open>
  C19. The name a successful \<open>add_new_student\<close> stores is the input without its
  surrounding whitespace: the input is whitespace, the stored name, whitespace; the stored
  name is non-empty and neither starts nor ends with whitespace.
\<close>

theorem add_student_stores_stripped_name:
  assumes "add_student students raw = Inr s'"
  shows "\<exists>u v. raw = u @ name (last s') @ v \<and> (\<forall>c \<in> set u. py_isspace c) \<and>
           (\<forall>c \<in> set v. py_isspace c) \<and> name (last s') \<noteq> [] \<and>
           \<not> py_isspace (hd (name (last s'))) \<and> \<not> py_isspace (last (name (last s')))"
proof -
  from assms have ne: "py_strip raw \<noteq> []"
    and s': "s' = students @ [\<lparr>name = py_strip raw, grades = []\<rparr>]"
    by (simp_all add: add_student_Inr)
  from py_strip_spec [of raw] ne s' show ?thesis by simp
qed

theorem add_student_stores_stripped_name_witness:
  "add_student [] '' \<newline>Ann B '' = Inr [\<lparr>name = ''Ann B'', grades = []\<rparr>] \<and>
   '' \<newline>Ann B '' = '' \<newline>'' @ ''Ann B'' @ '' ''"
proof -
  have a: "add_student [] '' \<newline>Ann B '' = Inr [\<lparr>name = ''Ann B'', grades = []\<rparr>]" by code_simp
  from add_student_stores_stripped_name [OF a] a show ?thesis by simp
qed

end
