(* ===== verification/Driver.thy ===== *)
theory Driver
  imports Registry
begin

text \<open>
  The interactive part of \<open>src/lecture_3/student_grade_analyzer.py\<close>: the handlers
  \<open>add_new_student\<close>, \<open>add_grades_for_student\<close>, \<open>show_report\<close>,
  \<open>find_top_performer\<close>, \<open>print_menu\<close> and the loop of \<open>main\<close>. Standard input is
  a finite list of events, each a line or a Ctrl-C; \<open>input(prompt)\<close> prints the prompt,
  then takes the next event, raising \<open>EOFError\<close> when the list is exhausted and
  \<open>KeyboardInterrupt\<close> on a Ctrl-C. Standard output is the list of messages printed,
  one constructor per \<open>print\<close> of the source. A handler returns the exception it lets
  escape, if any, with the state at that point: the registry is mutated in place, so
  grades appended before an interrupt stay appended.
\<close>

datatype input_event = Line string | Interrupt

datatype msg =
    Prompt string
  | MenuShown
  | NameEmpty | AlreadyExists string | Added string
  | NoStudentsAddFirst | NotFound string | InvalidNumber | InvalidGrade | GradesUpdated string int
  | NoStudentsToReportMsg | ReportHeader | AverageNA string | AverageIs string rat
  | NoGradesYet | Separator | SeparatorEnd | MaxAverage rat | MinAverage rat | OverallAverage rat
  | NoStudentsFoundMsg | NoGradesForTop | TopIs string rat
  | InvalidChoiceNumber | InvalidChoiceRange | Exiting | ExitingInterrupted

record io_state =
  reg :: students
  stdin :: "input_event list"
  stdout :: "msg list"

subsection \<open>input and print\<close>

definition emit :: "msg \<Rightarrow> io_state \<Rightarrow> io_state" where
  "emit m st = st\<lparr>stdout := stdout st @ [m]\<rparr>"

definition py_input :: "string \<Rightarrow> io_state \<Rightarrow> (py_exc + string) \<times> io_state" where
  "py_input prompt st =
     (let st' = emit (Prompt prompt) st in
      case stdin st of
        [] \<Rightarrow> (Inl EOFError, st')
      | Interrupt # rest \<Rightarrow> (Inl KeyboardInterrupt, st'\<lparr>stdin := rest\<rparr>)
      | Line l # rest \<Rightarrow> (Inr l, st'\<lparr>stdin := rest\<rparr>))"

subsection \<open>Handlers\<close>

definition add_new_student :: "io_state \<Rightarrow> py_exc option \<times> io_state" where
  "add_new_student st =
     (case py_input ''Enter student name: '' st of
        (Inl e, st1) \<Rightarrow> (Some e, st1)
      | (Inr line, st1) \<Rightarrow>
          (let nm = py_strip line in
           if nm = [] then (None, emit NameEmpty st1)
           else if find_student (reg st1) nm \<noteq> None then (None, emit (AlreadyExists nm) st1)
           else (None, emit (Added nm) (st1\<lparr>reg := reg st1 @ [\<lparr>name = nm, grades = []\<rparr>]\<rparr>))))"

definition grade_prompt :: string where
  "grade_prompt = ''Enter a grade (or 'done' to finish): ''"

function grade_loop :: "nat \<Rightarrow> io_state \<Rightarrow> py_exc option \<times> io_state" where
  "grade_loop i st =
     (case py_input grade_prompt st of
        (Inl e, st1) \<Rightarrow> (Some e, st1)
      | (Inr line, st1) \<Rightarrow>
          (let grade_str = py_strip line in
           if py_lower grade_str = ''done'' then (None, st1)
           else case py_int grade_str of
                  None \<Rightarrow> grade_loop i (emit InvalidNumber st1)
                | Some grade \<Rightarrow>
                    if \<not> (0 \<le> grade \<and> grade \<le> 100) then grade_loop i (emit InvalidGrade st1)
                    else grade_loop i (st1\<lparr>reg := append_grade i grade (reg st1)\<rparr>)))"
  by pat_completeness auto

lemma py_input_Inr_shorter:
  "py_input p st = (Inr l, st1) \<Longrightarrow> length (stdin st1) < length (stdin st)"
  by (auto simp: py_input_def emit_def Let_def split: list.splits input_event.splits)

termination grade_loop
  by (relation "measure (\<lambda>(i, st). length (stdin st))")
     (auto simp: emit_def dest!: sym [THEN py_input_Inr_shorter])

definition add_grades_for_student :: "io_state \<Rightarrow> py_exc option \<times> io_state" where
  "add_grades_for_student st =
     (if reg st = [] then (None, emit NoStudentsAddFirst st)
      else case py_input ''Enter student name: '' st of
        (Inl e, st1) \<Rightarrow> (Some e, st1)
      | (Inr line, st1) \<Rightarrow>
          (let nm = py_strip line in
           case student_index (reg st1) nm of
             None \<Rightarrow> (None, emit (NotFound nm) st1)
           | Some i \<Rightarrow>
               (let initial_count = length (grades (reg st1 ! i)) in
                case grade_loop i st1 of
                  (Some e, st2) \<Rightarrow> (Some e, st2)
                | (None, st2) \<Rightarrow>
                    (None, emit (GradesUpdated (name (reg st2 ! i))
                                  (int (length (grades (reg st2 ! i))) - int initial_count)) st2))))"

fun print_report :: "report \<Rightarrow> msg list" where
  "print_report NoStudentsToReport = [NoStudentsToReportMsg]"
| "print_report (Report rows stats) =
     ReportHeader #
     map (\<lambda>(n, a). case a of None \<Rightarrow> AverageNA n | Some avg \<Rightarrow> AverageIs n avg) rows @
     (case stats of
        None \<Rightarrow> [NoGradesYet, SeparatorEnd]
      | Some (mx, mn, ov) \<Rightarrow> [Separator, MaxAverage mx, MinAverage mn, OverallAverage ov, SeparatorEnd])"

definition show_report :: "io_state \<Rightarrow> io_state" where
  "show_report st = st\<lparr>stdout := stdout st @ print_report (build_report (reg st))\<rparr>"

fun print_top :: "top_result \<Rightarrow> msg" where
  "print_top NoStudentsFound = NoStudentsFoundMsg"
| "print_top NoGradesAvailable = NoGradesForTop"
| "print_top (TopStudent n a) = TopIs n a"

definition find_top_performer :: "io_state \<Rightarrow> io_state" where
  "find_top_performer st = emit (print_top (top_performer (reg st))) st"

definition print_menu :: "io_state \<Rightarrow> io_state" where
  "print_menu st = emit MenuShown st"

subsection \<open>The main loop\<close>

datatype phase = Running | Exited | Raised py_exc

definition handler_phase :: "py_exc option \<times> io_state \<Rightarrow> phase \<times> io_state" where
  "handler_phase r = (case r of (None, st) \<Rightarrow> (Running, st) | (Some e, st) \<Rightarrow> (Raised e, st))"

text \<open>One pass of the body of \<open>while True\<close> in \<open>main\<close>.\<close>

definition loop_iteration :: "io_state \<Rightarrow> phase \<times> io_state" where
  "loop_iteration st =
     (case py_input ''Enter your choice: '' (print_menu st) of
        (Inl e, st1) \<Rightarrow> (Raised e, st1)
      | (Inr line, st1) \<Rightarrow>
          (case py_int (py_strip line) of
             None \<Rightarrow> (Running, emit InvalidChoiceNumber st1)
           | Some choice \<Rightarrow>
               if choice = 1 then handler_phase (add_new_student st1)
               else if choice = 2 then handler_phase (add_grades_for_student st1)
               else if choice = 3 then (Running, show_report st1)
               else if choice = 4 then (Running, find_top_performer st1)
               else if choice = 5 then (Exited, emit Exiting st1)
               else (Running, emit InvalidChoiceRange st1)))"

text \<open>
  The lifecycle of the registry (spec section 3): students are never removed or renamed
  and their grades are only appended to.
\<close>

definition reg_extends :: "students \<Rightarrow> students \<Rightarrow> bool" where
  "reg_extends r r' \<longleftrightarrow>
     length r \<le> length r' \<and>
     (\<forall>i < length r. name (r' ! i) = name (r ! i) \<and> prefix (grades (r ! i)) (grades (r' ! i)))"

definition io_ok :: "io_state \<Rightarrow> py_exc option \<Rightarrow> io_state \<Rightarrow> bool" where
  "io_ok st r st' \<longleftrightarrow>
     suffix (stdin st') (stdin st) \<and> reg_extends (reg st) (reg st') \<and>
     (registry_ok (reg st) \<longrightarrow> registry_ok (reg st')) \<and>
     (r = Some EOFError \<longrightarrow> stdin st' = []) \<and>
     (r = Some KeyboardInterrupt \<longrightarrow> Interrupt \<in> set (stdin st)) \<and>
     (r = None \<or> r = Some EOFError \<or> r = Some KeyboardInterrupt)"

fun phase_exc :: "phase \<Rightarrow> py_exc option" where
  "phase_exc (Raised e) = Some e"
| "phase_exc _ = None"

declare grade_loop.simps [simp del]

subsection \<open>Effects of input, print and the handlers\<close>

text \<open>
  What every handler is shown to do to the state, collected in \<open>io_ok st r st'\<close> for a
  handler that starts in \<open>st\<close>, ends in \<open>st'\<close> and lets the exception \<open>r\<close> escape:
  it only consumes input (the remaining input is a suffix), it never removes or renames a
  student and only appends grades (\<open>reg_extends\<close>), it keeps the registry invariant, an
  \<open>EOFError\<close> leaves no input behind, a \<open>KeyboardInterrupt\<close> comes from a Ctrl-C event
  of the input, and no other exception escapes. \<open>io_ok\<close> composes along a run.
\<close>

lemma emit_fields [simp]:
  "reg (emit m st) = reg st" "stdin (emit m st) = stdin st" "stdout (emit m st) = stdout st @ [m]"
  by (simp_all add: emit_def)

lemma py_input_Line [simp]:
  "stdin st = Line l # rest \<Longrightarrow>
     py_input p st = (Inr l, st\<lparr>stdin := rest, stdout := stdout st @ [Prompt p]\<rparr>)"
  by (simp add: py_input_def emit_def)

lemma py_input_Interrupt [simp]:
  "stdin st = Interrupt # rest \<Longrightarrow>
     py_input p st = (Inl KeyboardInterrupt, st\<lparr>stdin := rest, stdout := stdout st @ [Prompt p]\<rparr>)"
  by (simp add: py_input_def emit_def)

lemma py_input_EOF [simp]:
  "stdin st = [] \<Longrightarrow> py_input p st = (Inl EOFError, st\<lparr>stdout := stdout st @ [Prompt p]\<rparr>)"
  by (simp add: py_input_def emit_def)

lemma reg_extends_refl [simp]: "reg_extends r r"
  by (simp add: reg_extends_def)

lemma reg_extends_trans: "reg_extends r1 r2 \<Longrightarrow> reg_extends r2 r3 \<Longrightarrow> reg_extends r1 r3"
  unfolding reg_extends_def by (metis order.trans less_le_trans prefix_order.trans)

lemma reg_extends_append: "reg_extends r (r @ xs)"
  by (simp add: reg_extends_def nth_append)

lemma reg_extends_append_grade: "reg_extends r (append_grade i g r)"
  by (cases "i < length r") (auto simp: reg_extends_def append_grade_def nth_list_update)

lemma append_grade_ok_any: "registry_ok r \<Longrightarrow> grade_ok g \<Longrightarrow> registry_ok (append_grade i g r)"
  using append_grade_ok [of r i g] by (cases "i < length r") (simp_all add: append_grade_def list_update_beyond)

lemma io_ok_refl: "io_ok st None st"
  by (simp add: io_ok_def)

lemma io_ok_trans: "io_ok st None st2 \<Longrightarrow> io_ok st2 r st' \<Longrightarrow> io_ok st r st'"
  unfolding io_ok_def by (blast intro: suffix_order.trans reg_extends_trans dest: set_mono_suffix)

lemma io_ok_same: "io_ok st r st' \<Longrightarrow> stdin st'' = stdin st' \<Longrightarrow> reg st'' = reg st' \<Longrightarrow> io_ok st r st''"
  by (simp add: io_ok_def)

lemma io_ok_emit: "io_ok st None st' \<Longrightarrow> io_ok st None (emit m st')"
  by (erule io_ok_same) simp_all

lemma io_ok_reg:
  assumes "io_ok st None st1" and "reg_extends (reg st1) r'" and "registry_ok (reg st1) \<longrightarrow> registry_ok r'"
  shows "io_ok st None (st1\<lparr>reg := r'\<rparr>)"
proof -
  have "io_ok st1 None (st1\<lparr>reg := r'\<rparr>)" using assms(2,3) by (simp add: io_ok_def suffix_order.refl)
  with assms(1) show ?thesis by (rule io_ok_trans)
qed

lemma py_input_io_ok: "py_input p st = (x, st1) \<Longrightarrow> io_ok st (case x of Inl e \<Rightarrow> Some e | Inr _ \<Rightarrow> None) st1"
  by (auto simp: py_input_def io_ok_def Let_def emit_def suffix_ConsI suffix_order.refl
           split: list.splits input_event.splits)

lemma py_input_Inr_io_ok:
  "py_input p st = (Inr l, st1) \<Longrightarrow> io_ok st None st1 \<and> length (stdin st1) < length (stdin st)"
  using py_input_io_ok [of p st "Inr l" st1] py_input_Inr_shorter by simp

lemma grade_loop_io_ok: "grade_loop i st = (r, st') \<Longrightarrow> io_ok st r st'"
proof (induction "length (stdin st)" arbitrary: st r st' rule: less_induct)
  case less
  obtain x st1 where inp: "py_input grade_prompt st = (x, st1)" by fastforce
  have rec: "io_ok st r st'"
    if "io_ok st None st2" "grade_loop i st2 = (r, st')" "length (stdin st2) < length (stdin st)" for st2
    using less.hyps [of st2] that io_ok_trans by blast
  show ?case
  proof (cases x)
    case (Inl e)
    with less.prems inp py_input_io_ok [OF inp] show ?thesis by (simp add: grade_loop.simps)
  next
    case (Inr line)
    with py_input_Inr_io_ok inp have i1: "io_ok st None st1" and sh: "length (stdin st1) < length (stdin st)"
      by blast+
    consider (sentinel) "py_lower (py_strip line) = ''done''"
      | (nan) "py_lower (py_strip line) \<noteq> ''done''" "py_int (py_strip line) = None"
      | (out) g where "py_lower (py_strip line) \<noteq> ''done''" "py_int (py_strip line) = Some g"
          "\<not> (0 \<le> g \<and> g \<le> 100)"
      | (ok) g where "py_lower (py_strip line) \<noteq> ''done''" "py_int (py_strip line) = Some g"
          "0 \<le> g \<and> g \<le> 100"
      by (cases "py_int (py_strip line)") auto
    then show ?thesis
    proof cases
      case sentinel
      with less.prems inp Inr i1 show ?thesis by (simp add: grade_loop.simps)
    next
      case nan
      with less.prems inp Inr have "grade_loop i (emit InvalidNumber st1) = (r, st')"
        by (simp add: grade_loop.simps)
      with rec [OF io_ok_emit [OF i1]] sh show ?thesis by simp
    next
      case out
      with less.prems inp Inr have "grade_loop i (emit InvalidGrade st1) = (r, st')"
        by (simp add: grade_loop.simps)
      with rec [OF io_ok_emit [OF i1]] sh show ?thesis by simp
    next
      case ok
      with less.prems inp Inr
      have "grade_loop i (st1\<lparr>reg := append_grade i g (reg st1)\<rparr>) = (r, st')"
        by (simp add: grade_loop.simps)
      moreover have "io_ok st None (st1\<lparr>reg := append_grade i g (reg st1)\<rparr>)"
        using ok by (intro io_ok_reg [OF i1]) (simp_all add: reg_extends_append_grade append_grade_ok_any grade_ok_def)
      ultimately show ?thesis using rec sh by simp
    qed
  qed
qed

lemma add_new_student_io_ok: "add_new_student st = (r, st') \<Longrightarrow> io_ok st r st'"
proof -
  assume a: "add_new_student st = (r, st')"
  obtain x st1 where inp: "py_input ''Enter student name: '' st = (x, st1)" by fastforce
  show ?thesis
  proof (cases x)
    case (Inl e)
    with a inp py_input_io_ok [OF inp] show ?thesis by (simp add: add_new_student_def)
  next
    case (Inr line)
    with py_input_Inr_io_ok inp have i1: "io_ok st None st1" by blast
    show ?thesis
    proof (cases "py_strip line = [] \<or> find_student (reg st1) (py_strip line) \<noteq> None")
      case True
      with a inp Inr io_ok_emit [OF i1] show ?thesis
        by (auto simp: add_new_student_def Let_def split: if_splits)
    next
      case False
      then have "add_student (reg st1) line = Inr (reg st1 @ [\<lparr>name = py_strip line, grades = []\<rparr>])"
        by (simp add: add_student_Inr)
      then have "io_ok st None (st1\<lparr>reg := reg st1 @ [\<lparr>name = py_strip line, grades = []\<rparr>]\<rparr>)"
        using add_student_ok by (intro io_ok_reg [OF i1]) (simp_all add: reg_extends_append)
      with False a inp Inr show ?thesis by (auto simp: add_new_student_def Let_def intro: io_ok_emit)
    qed
  qed
qed

lemma add_grades_for_student_io_ok: "add_grades_for_student st = (r, st') \<Longrightarrow> io_ok st r st'"
proof -
  assume a: "add_grades_for_student st = (r, st')"
  obtain x st1 where inp: "py_input ''Enter student name: '' st = (x, st1)" by fastforce
  show ?thesis
  proof (cases "reg st = []")
    case True
    with a io_ok_emit [OF io_ok_refl] show ?thesis by (auto simp: add_grades_for_student_def)
  next
    case False
    show ?thesis
    proof (cases x)
      case (Inl e)
      with a inp False py_input_io_ok [OF inp] show ?thesis by (simp add: add_grades_for_student_def)
    next
      case (Inr line)
      with py_input_Inr_io_ok inp have i1: "io_ok st None st1" by blast
      show ?thesis
      proof (cases "student_index (reg st1) (py_strip line)")
        case None
        with a inp Inr False io_ok_emit [OF i1] show ?thesis
          by (auto simp: add_grades_for_student_def Let_def)
      next
        case (Some i)
        obtain r2 st2 where gl: "grade_loop i st1 = (r2, st2)" by fastforce
        have i2: "io_ok st r2 st2" by (rule io_ok_trans [OF i1 grade_loop_io_ok [OF gl]])
        show ?thesis
        proof (cases r2)
          case None
          with a inp Inr False Some gl io_ok_emit [OF i2 [unfolded None]] show ?thesis
            by (auto simp: add_grades_for_student_def Let_def)
        next
          case (Some e)
          with a inp Inr False \<open>student_index (reg st1) (py_strip line) = Some i\<close> gl i2 show ?thesis
            by (auto simp: add_grades_for_student_def Let_def)
        qed
      qed
    qed
  qed
qed

lemma show_report_fields [simp]:
  "reg (show_report st) = reg st" "stdin (show_report st) = stdin st"
  by (simp_all add: show_report_def)

lemma find_top_performer_fields [simp]:
  "reg (find_top_performer st) = reg st" "stdin (find_top_performer st) = stdin st"
  by (simp_all add: find_top_performer_def)

lemma print_menu_fields [simp]:
  "reg (print_menu st) = reg st" "stdin (print_menu st) = stdin st"
  "stdout (print_menu st) = stdout st @ [MenuShown]"
  by (simp_all add: print_menu_def)

lemma handler_phase_Running [simp]: "handler_phase r = (Running, st) \<longleftrightarrow> r = (None, st)"
  by (cases r) (auto simp: handler_phase_def split: option.splits)

lemma handler_phase_Raised [simp]: "handler_phase r = (Raised e, st) \<longleftrightarrow> r = (Some e, st)"
  by (cases r) (auto simp: handler_phase_def split: option.splits)

lemma handler_phase_not_Exited [simp]: "handler_phase r \<noteq> (Exited, st)"
  by (cases r) (auto simp: handler_phase_def split: option.splits)

lemma handler_phase_io_ok:
  "io_ok st r st' \<Longrightarrow> handler_phase (r, st') = (ph, st'') \<Longrightarrow> io_ok st (phase_exc ph) st'' \<and> ph \<noteq> Exited"
  by (cases r) (auto simp: handler_phase_def)

text \<open>
  One iteration of the menu loop: the effect of the handler it dispatches to; an
  iteration that continues consumes input; and the loop is left normally only on a menu
  line of the input that parses to 5.
\<close>

lemma io_ok_length: "io_ok st r st' \<Longrightarrow> length (stdin st') \<le> length (stdin st)"
  by (auto simp: io_ok_def dest: suffix_length_le)

lemma loop_iteration_io_ok:
  assumes "loop_iteration st = (ph, st')"
  shows "io_ok st (phase_exc ph) st' \<and> (ph = Running \<longrightarrow> length (stdin st') < length (stdin st)) \<and>
         (ph = Exited \<longrightarrow> (\<exists>l. Line l \<in> set (stdin st) \<and> py_int (py_strip l) = Some 5))"
proof -
  obtain x st1 where inp: "py_input ''Enter your choice: '' (print_menu st) = (x, st1)" by fastforce
  have i0: "io_ok st None (print_menu st)" by (rule io_ok_same [OF io_ok_refl]) simp_all
  show ?thesis
  proof (cases x)
    case (Inl e)
    with assms inp io_ok_trans [OF i0 py_input_io_ok [OF inp]] show ?thesis
      by (auto simp: loop_iteration_def)
  next
    case (Inr line)
    with py_input_Inr_io_ok inp have i1': "io_ok (print_menu st) None st1"
      and sh: "length (stdin st1) < length (stdin (print_menu st))" by blast+
    have i1: "io_ok st None st1" by (rule io_ok_trans [OF i0 i1'])
    have ln: "stdin st = Line line # stdin st1"
      using inp Inr by (auto simp: py_input_def Let_def emit_def split: list.splits input_event.splits)
    obtain ra sa where a: "add_new_student st1 = (ra, sa)" by fastforce
    obtain rg sg where g: "add_grades_for_student st1 = (rg, sg)" by fastforce
    have ea: "io_ok st ra sa" by (rule io_ok_trans [OF i1 add_new_student_io_ok [OF a]])
    have eg: "io_ok st rg sg" by (rule io_ok_trans [OF i1 add_grades_for_student_io_ok [OF g]])
    have la: "length (stdin sa) < length (stdin st)"
      using io_ok_length [OF add_new_student_io_ok [OF a]] sh by simp
    have lg: "length (stdin sg) < length (stdin st)"
      using io_ok_length [OF add_grades_for_student_io_ok [OF g]] sh by simp
    have i3: "io_ok st None (show_report st1)" by (rule io_ok_same [OF i1]) simp_all
    have i4: "io_ok st None (find_top_performer st1)" by (rule io_ok_same [OF i1]) simp_all
    have i5: "io_ok st None (emit m st1)" for m by (rule io_ok_emit [OF i1])
    show ?thesis
      using assms inp Inr ln a g ea eg la lg i3 i4 i5 sh
      by (cases ra; cases rg)
         (auto simp: loop_iteration_def handler_phase_def split: option.splits if_splits)
  qed
qed

subsection \<open>Handlers and the pure registry\<close>

lemma grade_loop_Line:
  assumes "stdin st = Line l # rest"
  shows "grade_loop i st =
           (let st1 = st\<lparr>stdin := rest, stdout := stdout st @ [Prompt grade_prompt]\<rparr> in
            case classify_grade l of
              Done \<Rightarrow> (None, st1)
            | NotANumber \<Rightarrow> grade_loop i (emit InvalidNumber st1)
            | OutOfRange g \<Rightarrow> grade_loop i (emit InvalidGrade st1)
            | Grade g \<Rightarrow> grade_loop i (st1\<lparr>reg := append_grade i g (reg st1)\<rparr>))"
  using assms by (simp add: grade_loop.simps classify_grade_def Let_def split: option.split)

lemma accepted_grades_snoc_Done:
  "\<forall>l\<in>set ls. classify_grade l \<noteq> Done \<Longrightarrow> classify_grade d = Done \<Longrightarrow>
     accepted_grades (ls @ [d]) = accepted_grades ls"
  by (induction ls rule: accepted_grades.induct) (auto split: grade_token.split)

lemma grade_loop_lines:
  assumes "stdin st = map Line ls @ Line d # rest" and "classify_grade d = Done"
    and "\<forall>l\<in>set ls. classify_grade l \<noteq> Done"
  shows "fst (grade_loop i st) = None \<and> stdin (snd (grade_loop i st)) = rest \<and>
         reg (snd (grade_loop i st)) = fold (append_grade i) (accepted_grades ls) (reg st)"
  using assms
proof (induction ls arbitrary: st)
  case Nil
  then show ?case by (simp add: grade_loop_Line)
next
  case (Cons l ls)
  then have s: "stdin st = Line l # (map Line ls @ Line d # rest)" and nd: "classify_grade l \<noteq> Done"
    by simp_all
  show ?case
  proof (cases "classify_grade l")
    case (Grade g)
    with Cons.IH [of "st\<lparr>stdin := map Line ls @ Line d # rest, stdout := stdout st @ [Prompt grade_prompt],
                         reg := append_grade i g (reg st)\<rparr>"] Cons.prems
    show ?thesis by (simp add: grade_loop_Line [OF s])
  qed (use nd Cons in \<open>simp_all add: grade_loop_Line [OF s]\<close>)
qed

text \<open>C26: a menu line that is not an integer, or an integer outside 1 to 5, prints the matching error and continues the loop with the registry unchanged, consuming exactly that line.\<close>

lemma invalid_choice_continues:
  assumes "stdin st = Line l # rest"
    and "py_int (py_strip l) = None \<or> (\<exists>c. py_int (py_strip l) = Some c \<and> (c < 1 \<or> 5 < c))"
  shows "loop_iteration st =
           (Running, st\<lparr>stdin := rest, stdout := stdout st @ [MenuShown, Prompt ''Enter your choice: '',
              if py_int (py_strip l) = None then InvalidChoiceNumber else InvalidChoiceRange]\<rparr>)"
  using assms by (auto simp: loop_iteration_def print_menu_def emit_def)

lemma invalid_choice_continues_witness:
  "loop_iteration \<lparr>reg = [], stdin = [Line ''7''], stdout = []\<rparr> =
     (Running, \<lparr>reg = [], stdin = [], stdout = [MenuShown, Prompt ''Enter your choice: '', InvalidChoiceRange]\<rparr>)"
proof -
  have "py_int (py_strip ''7'') = Some 7" by code_simp
  then show ?thesis using invalid_choice_continues [of "\<lparr>reg = [], stdin = [Line ''7''], stdout = []\<rparr>" "''7''" "[]"]
    by simp
qed

text \<open>C27: the interactive add_new_student handler refines the pure add_student: on a name line it consumes the line, raises nothing, and leaves the registry as add_student returns it (unchanged on a rejected name).\<close>

lemma add_new_student_refines_add_student:
  assumes "stdin st = Line raw # rest"
  shows "fst (add_new_student st) = None \<and> stdin (snd (add_new_student st)) = rest \<and>
         reg (snd (add_new_student st)) = (case add_student (reg st) raw of Inl _ \<Rightarrow> reg st | Inr s \<Rightarrow> s)"
  using assms by (simp add: add_new_student_def add_student_def Let_def)

lemma add_new_student_refines_add_student_witness:
  "fst (add_new_student \<lparr>reg = [], stdin = [Line '' Ann ''], stdout = []\<rparr>) = None \<and>
   stdin (snd (add_new_student \<lparr>reg = [], stdin = [Line '' Ann ''], stdout = []\<rparr>)) = [] \<and>
   reg (snd (add_new_student \<lparr>reg = [], stdin = [Line '' Ann ''], stdout = []\<rparr>)) = [\<lparr>name = ''Ann'', grades = []\<rparr>]"
proof -
  have "add_student [] '' Ann '' = Inr [\<lparr>name = ''Ann'', grades = []\<rparr>]" by code_simp
  then show ?thesis
    using add_new_student_refines_add_student [of "\<lparr>reg = [], stdin = [Line '' Ann ''], stdout = []\<rparr>" "'' Ann ''" "[]"]
    by simp
qed

text \<open>C28: the interactive add_grades_for_student handler refines the pure add_grades: on a name line followed by grade lines up to the first done, it raises nothing, consumes exactly those lines, leaves the registry add_grades computes and reports the count add_grades computes.\<close>

lemma add_grades_for_student_refines_add_grades:
  assumes "stdin st = Line raw # map Line ls @ Line d # rest" and "classify_grade d = Done"
    and "\<forall>l\<in>set ls. classify_grade l \<noteq> Done"
    and "add_grades (reg st) raw (ls @ [d]) = Inr (students', k)"
  shows "fst (add_grades_for_student st) = None \<and> reg (snd (add_grades_for_student st)) = students' \<and>
         stdin (snd (add_grades_for_student st)) = rest \<and>
         (\<exists>n. last (stdout (snd (add_grades_for_student st))) = GradesUpdated n k)"
proof -
  from assms(4) have ne: "reg st \<noteq> []" by (auto simp: add_grades_def)
  from assms(4) ne obtain i where i: "student_index (reg st) raw = Some i"
    by (auto simp: add_grades_def Let_def split: option.splits)
  let ?st1 = "st\<lparr>stdin := map Line ls @ Line d # rest, stdout := stdout st @ [Prompt ''Enter student name: '']\<rparr>"
  obtain r2 st2 where gl: "grade_loop i ?st1 = (r2, st2)" by fastforce
  from grade_loop_lines [of ?st1 ls d rest i] assms(2,3) gl
  have r2: "r2 = None" and s2: "stdin st2 = rest"
    and g2: "reg st2 = fold (append_grade i) (accepted_grades ls) (reg st)" by simp_all
  from assms(4) ne i have "students' = fold (append_grade i) (accepted_grades (ls @ [d])) (reg st)"
    and "k = int (length (grades (students' ! i))) - int (length (grades (reg st ! i)))"
    by (auto simp: add_grades_def Let_def)
  with assms(1,2,3) ne i gl r2 s2 g2 show ?thesis
    by (simp add: add_grades_for_student_def Let_def accepted_grades_snoc_Done)
qed

lemma add_grades_for_student_refines_add_grades_witness:
  "fst (add_grades_for_student \<lparr>reg = [\<lparr>name = ''Ann'', grades = []\<rparr>],
          stdin = [Line ''ann'', Line ''90'', Line ''x'', Line ''DONE''], stdout = []\<rparr>) = None \<and>
   reg (snd (add_grades_for_student \<lparr>reg = [\<lparr>name = ''Ann'', grades = []\<rparr>],
          stdin = [Line ''ann'', Line ''90'', Line ''x'', Line ''DONE''], stdout = []\<rparr>)) =
     [\<lparr>name = ''Ann'', grades = [90]\<rparr>]"
proof -
  have d: "classify_grade ''DONE'' = Done" by code_simp
  have ls: "\<forall>l\<in>set [''90'', ''x'']. classify_grade l \<noteq> Done" by code_simp
  have a: "add_grades [\<lparr>name = ''Ann'', grades = []\<rparr>] ''ann'' [''90'', ''x'', ''DONE''] =
             Inr ([\<lparr>name = ''Ann'', grades = [90]\<rparr>], 1)" by code_simp
  show ?thesis
    using add_grades_for_student_refines_add_grades [of "\<lparr>reg = [\<lparr>name = ''Ann'', grades = []\<rparr>],
          stdin = [Line ''ann'', Line ''90'', Line ''x'', Line ''DONE''], stdout = []\<rparr>" "''ann''"
          "[''90'', ''x'']" "''DONE''" "[]"] d ls a
    by simp
qed

end
