(* ===== verification/Session.thy ===== *)
theory Session
  imports Driver
begin

text \<open>
  A run of the grade analyzer: the \<open>while True\<close> loop of \<open>main\<close>
  (\<open>src/lecture_3/student_grade_analyzer.py\<close>, lines 184-219) as the recursive
  function \<open>main_loop\<close> over the iterations of \<open>Driver\<close>, \<open>main\<close> with its handler
  for \<open>KeyboardInterrupt\<close>, and the inductive set of the states a run reaches at the top
  of the loop. The properties are those of whole runs: the invariant of every reachable
  state, that the loop ends and how, and the lifecycle of the registry along a run.
\<close>


text \<open>
  \<open>while True\<close> of \<open>main\<close> (source lines 184-214): iterations run while the phase
  is \<open>Running\<close>. Every running iteration consumes at least the menu line, so the
  recursion is well founded on the length of the remaining input.
\<close>

function main_loop :: "io_state \<Rightarrow> phase \<times> io_state" where
  "main_loop st = (case loop_iteration st of (Running, st') \<Rightarrow> main_loop st' | r \<Rightarrow> r)"
  by pat_completeness auto

termination main_loop
  by (relation "measure (\<lambda>st. length (stdin st))")
     (auto dest!: sym [THEN loop_iteration_io_ok])

declare main_loop.simps [simp del]

definition init_state :: "input_event list \<Rightarrow> io_state" where
  "init_state inp = \<lparr>reg = [], stdin = inp, stdout = []\<rparr>"

text \<open>
  \<open>main\<close> with its \<open>try ... except KeyboardInterrupt\<close> (lines 184-219): an
  interrupt escaping a handler or the menu prompt prints the farewell and ends the run
  normally; any other exception ends it with that exception.
\<close>

definition main :: "input_event list \<Rightarrow> phase \<times> msg list" where
  "main inp =
     (case main_loop (init_state inp) of
        (Raised KeyboardInterrupt, st) \<Rightarrow> (Exited, stdout (emit ExitingInterrupted st))
      | (ph, st) \<Rightarrow> (ph, stdout st))"

text \<open>The states at the top of the loop that a run reaches.\<close>

inductive reachable :: "io_state \<Rightarrow> bool" where
  init: "reachable (init_state inp)"
| step: "reachable st \<Longrightarrow> loop_iteration st = (Running, st') \<Longrightarrow> reachable st'"

inductive_cases reachable_stepE: "reachable st'"

subsection \<open>Runs\<close>

lemma main_loop_io_ok:
  "main_loop st = (ph, st') \<Longrightarrow>
     io_ok st (phase_exc ph) st' \<and> ph \<noteq> Running \<and>
     (ph = Exited \<longrightarrow> (\<exists>l. Line l \<in> set (stdin st) \<and> py_int (py_strip l) = Some 5))"
proof (induction st arbitrary: ph st' rule: main_loop.induct)
  case (1 st)
  obtain ph1 st1 where li: "loop_iteration st = (ph1, st1)" by fastforce
  note e = loop_iteration_io_ok [OF li]
  show ?case
  proof (cases ph1)
    case Running
    with 1(2) li have m: "main_loop st1 = (ph, st')" by (simp add: main_loop.simps)
    have ih: "io_ok st1 (phase_exc ph) st' \<and> ph \<noteq> Running \<and>
                (ph = Exited \<longrightarrow> (\<exists>l. Line l \<in> set (stdin st1) \<and> py_int (py_strip l) = Some 5))"
      by (rule 1(1) [OF li [symmetric] Running m])
    have s: "set (stdin st1) \<subseteq> set (stdin st)" using e by (auto simp: io_ok_def dest: set_mono_suffix)
    have "io_ok st None st1" using e Running by simp
    with ih have "io_ok st (phase_exc ph) st'" using io_ok_trans by blast
    with ih s show ?thesis by blast
  next
    case Exited
    with 1(2) li e show ?thesis by (simp add: main_loop.simps)
  next
    case (Raised x)
    with 1(2) li e show ?thesis by (auto simp: main_loop.simps)
  qed
qed

lemma main_loop_exc:
  "main_loop st = (ph, st') \<Longrightarrow> ph = Exited \<or> ph = Raised EOFError \<or> ph = Raised KeyboardInterrupt"
  using main_loop_io_ok [of st ph st'] by (cases ph) (auto simp: io_ok_def)

subsection \<open>Properties of runs\<close>

text \<open>C20: every state at the top of the menu loop that a run reaches satisfies the registry invariant: names are stripped, non-empty and pairwise distinct after normalisation, and every grade is in [0, 100].\<close>

lemma reachable_registry_ok: "reachable st \<Longrightarrow> registry_ok (reg st)"
proof (induction rule: reachable.induct)
  case (init inp)
  then show ?case by (simp add: init_state_def registry_ok_def)
next
  case (step st st')
  with loop_iteration_io_ok [OF step.hyps(2)] show ?case by (simp add: io_ok_def)
qed

lemma reachable_registry_ok_witness:
  "reachable \<lparr>reg = [\<lparr>name = ''Ann'', grades = []\<rparr>], stdin = [],
              stdout = [MenuShown, Prompt ''Enter your choice: '', Prompt ''Enter student name: '', Added ''Ann'']\<rparr> \<and>
   registry_ok [\<lparr>name = ''Ann'', grades = []\<rparr>]"
proof -
  have r: "reachable \<lparr>reg = [\<lparr>name = ''Ann'', grades = []\<rparr>], stdin = [],
              stdout = [MenuShown, Prompt ''Enter your choice: '', Prompt ''Enter student name: '', Added ''Ann'']\<rparr>"
    by (rule reachable.step [OF reachable.init [of "[Line ''1'', Line '' Ann'']"]]) code_simp
  show ?thesis using r reachable_registry_ok [OF r] by simp
qed

text \<open>C21: the menu loop always ends: its outcome is a normal exit (choice 5), or an EOFError or KeyboardInterrupt escaping from input(); it never returns while still running.\<close>

lemma main_loop_ends:
  "\<exists>st'. main_loop st = (Exited, st') \<or> main_loop st = (Raised EOFError, st') \<or>
         main_loop st = (Raised KeyboardInterrupt, st')"
proof -
  obtain ph st' where m: "main_loop st = (ph, st')" by fastforce
  from main_loop_exc [OF m] m show ?thesis by blast
qed

text \<open>C22: a run of the program ends either normally or with an uncaught EOFError; a KeyboardInterrupt never escapes main, whichever prompt it interrupts.\<close>

lemma main_outcome: "fst (main inp) = Exited \<or> fst (main inp) = Raised EOFError"
proof -
  obtain ph st where m: "main_loop (init_state inp) = (ph, st)" by fastforce
  from main_loop_exc [OF m] m show ?thesis by (auto simp: main_def)
qed

text \<open>C23: end of input is never handled: a session whose input has no Ctrl-C and no line that parses to 5 ends with an uncaught EOFError, whatever the lines do (spec section 6 lists option 5 and the interrupt as the only exits).\<close>

lemma main_eof_unless_exit:
  assumes "list_all (\<lambda>e. case e of Interrupt \<Rightarrow> False | Line l \<Rightarrow> py_int (py_strip l) \<noteq> Some 5) inp"
  shows "fst (main inp) = Raised EOFError"
proof -
  obtain ph st where m: "main_loop (init_state inp) = (ph, st)" by fastforce
  note r = main_loop_io_ok [OF m]
  have "Interrupt \<notin> set inp" using assms by (auto simp: list_all_iff)
  moreover have "\<not> (\<exists>l. Line l \<in> set inp \<and> py_int (py_strip l) = Some 5)"
    using assms by (auto simp: list_all_iff)
  ultimately have "ph = Raised EOFError"
    using main_loop_exc [OF m] r by (auto simp: io_ok_def init_state_def)
  with m show ?thesis by (simp add: main_def)
qed

lemma main_eof_unless_exit_witness:
  "fst (main [Line ''1'', Line '' Ann'', Line ''3'', Line ''x'']) = Raised EOFError"
proof -
  have "list_all (\<lambda>e. case e of Interrupt \<Rightarrow> False | Line l \<Rightarrow> py_int (py_strip l) \<noteq> Some 5)
          [Line ''1'', Line '' Ann'', Line ''3'', Line ''x'']" by code_simp
  then show ?thesis by (rule main_eof_unless_exit)
qed

text \<open>C24: the first menu event decides at once when it is an exit: a line that parses to 5 ends the run with the farewell, and Ctrl-C ends it normally with the interrupt farewell, whatever input follows.\<close>

lemma main_first_event_exits:
  "(py_int (py_strip l) = Some 5 \<longrightarrow>
      main (Line l # rest) = (Exited, [MenuShown, Prompt ''Enter your choice: '', Exiting])) \<and>
   main (Interrupt # rest) = (Exited, [MenuShown, Prompt ''Enter your choice: '', ExitingInterrupted])"
  by (simp add: main_def init_state_def main_loop.simps loop_iteration_def print_menu_def)

lemma main_first_event_exits_witness:
  "main [Line '' 5 '', Line ''1''] = (Exited, [MenuShown, Prompt ''Enter your choice: '', Exiting]) \<and>
   main [Interrupt, Line ''5''] = (Exited, [MenuShown, Prompt ''Enter your choice: '', ExitingInterrupted])"
proof -
  have "py_int (py_strip '' 5 '') = Some 5" by code_simp
  then show ?thesis
    using main_first_event_exits [of "'' 5 ''" "[Line ''1'']"] main_first_event_exits [of _ "[Line ''5'']"]
    by simp
qed

text \<open>C25: along a whole run of the menu loop, interrupted or not, no student is removed or renamed and grades are only appended: the registry at the end extends the registry at the start position by position.\<close>

lemma main_loop_registry_lifecycle: "reg_extends (reg st) (reg (snd (main_loop st)))"
  using main_loop_io_ok [of st "fst (main_loop st)" "snd (main_loop st)"] by (simp add: io_ok_def)

lemma main_loop_registry_lifecycle_witness:
  "reg_extends [\<lparr>name = ''Ann'', grades = [90]\<rparr>]
     (reg (snd (main_loop \<lparr>reg = [\<lparr>name = ''Ann'', grades = [90]\<rparr>],
        stdin = [Line ''2'', Line ''ann'', Line ''80'', Interrupt], stdout = []\<rparr>))) \<and>
   reg (snd (main_loop \<lparr>reg = [\<lparr>name = ''Ann'', grades = [90]\<rparr>],
        stdin = [Line ''2'', Line ''ann'', Line ''80'', Interrupt], stdout = []\<rparr>)) =
     [\<lparr>name = ''Ann'', grades = [90, 80]\<rparr>]"
proof -
  have "reg (snd (main_loop \<lparr>reg = [\<lparr>name = ''Ann'', grades = [90]\<rparr>],
        stdin = [Line ''2'', Line ''ann'', Line ''80'', Interrupt], stdout = []\<rparr>)) =
     [\<lparr>name = ''Ann'', grades = [90, 80]\<rparr>]" by code_simp
  with main_loop_registry_lifecycle [of "\<lparr>reg = [\<lparr>name = ''Ann'', grades = [90]\<rparr>],
        stdin = [Line ''2'', Line ''ann'', Line ''80'', Interrupt], stdout = []\<rparr>"]
  show ?thesis by simp
qed

end
