(* ===== verification/BookApi.thy ===== *)
theory BookApi
  imports Prelude
begin

text \<open>
  The book collection service of \<open>src/lecture_5/book_api\<close>: the pydantic schemas of
  \<open>schemas.py\<close> as records, the \<open>books\<close> table as the list of its rows in primary-key
  order, and each endpoint of \<open>main.py\<close> as a function from the request's parameters and
  the table to an HTTP error or the response body and the new table. Query-parameter
  validation (\<open>Query(ge=0)\<close>, \<open>Query(gt=0, le=100)\<close>) is the 422 branch; the 404 of
  \<open>delete_book\<close>/\<open>update_book\<close> and the integrity error of a \<open>NOT NULL\<close> column set
  to null at commit are the other error branches. The ORM model \<open>models.Book\<close>, the
  engine of \<open>database.py\<close> and the SQL operators are not part of the sources; they are
  modelled after the spec (title and author required, year optional, integer identifier)
  and standard SQL: \<open>OFFSET\<close>/\<open>LIMIT\<close>, \<open>ILIKE\<close> with the wildcards \<open>%\<close> and
  \<open>_\<close> and ASCII case folding, and a fresh identifier one above the largest in use.
  \<open>startup\<close> and \<open>serve\<close> compose the endpoints into runs of the application, over
  which the table invariant (positive keys, strictly increasing in row order) is kept.
\<close>

subsection \<open>Schemas and the table\<close>

record book =
  book_id :: int
  title :: string
  author :: string
  year :: "int option"

record book_create =
  bc_title :: string
  bc_author :: string
  bc_year :: "int option"

text \<open>A field of a \<open>BookUpdate\<close> body: absent (dropped by \<open>exclude_unset=True\<close>) or given,
  possibly as an explicit \<open>null\<close>.\<close>

datatype 'a field_value = Unset | Given 'a

record book_update =
  bu_title :: "string option field_value"
  bu_author :: "string option field_value"
  bu_year :: "int option field_value"

type_synonym book_table = "book list"

datatype http_error = BookNotFound int | ValidationError | IntegrityError

definition next_id :: "book_table \<Rightarrow> int" where
  "next_id bs = fold max (map book_id bs) 0 + 1"

subsection \<open>SQL operators\<close>

definition sql_lower :: "char \<Rightarrow> char" where
  "sql_lower c = (let n = (of_char c :: nat) in if 65 \<le> n \<and> n \<le> 90 then char_of (n + 32) else c)"

text \<open>\<open>LIKE\<close>: \<open>%\<close> matches any string, \<open>_\<close> any one character, every other
  character itself; the recursion is on the pattern and then on the text.\<close>

fun like_match :: "string \<Rightarrow> string \<Rightarrow> bool" where
  "like_match [] t = (t = [])"
| "like_match (c # p) t =
     (if c = CHR ''%'' then like_match p t \<or> (case t of [] \<Rightarrow> False | _ # t' \<Rightarrow> like_match (c # p) t')
      else case t of [] \<Rightarrow> False | x # t' \<Rightarrow> (c = CHR ''_'' \<or> x = c) \<and> like_match p t')"

definition ilike :: "string \<Rightarrow> string \<Rightarrow> bool" where
  "ilike s pat = like_match (map sql_lower pat) (map sql_lower s)"

definition offset_limit :: "int \<Rightarrow> int \<Rightarrow> 'a list \<Rightarrow> 'a list" where
  "offset_limit skip limit xs = take (nat limit) (drop (nat skip) xs)"

subsection \<open>Endpoints\<close>

definition create_book :: "book_create \<Rightarrow> book_table \<Rightarrow> book \<times> book_table" where
  "create_book c bs =
     (let db_book = \<lparr>book_id = next_id bs, title = bc_title c, author = bc_author c, year = bc_year c\<rparr>
      in (db_book, bs @ [db_book]))"

definition page_params_ok :: "int \<Rightarrow> int \<Rightarrow> bool" where
  "page_params_ok skip limit \<longleftrightarrow> 0 \<le> skip \<and> 0 < limit \<and> limit \<le> 100"

definition list_books :: "int \<Rightarrow> int \<Rightarrow> book_table \<Rightarrow> http_error + book list" where
  "list_books skip limit bs =
     (if \<not> page_params_ok skip limit then Inl ValidationError else Inr (offset_limit skip limit bs))"

definition first_book :: "int \<Rightarrow> book_table \<Rightarrow> book option" where
  "first_book i bs = find (\<lambda>b. book_id b = i) bs"

definition delete_book :: "int \<Rightarrow> book_table \<Rightarrow> http_error + book_table" where
  "delete_book i bs =
     (case first_book i bs of
        None \<Rightarrow> Inl (BookNotFound i)
      | Some db_book \<Rightarrow> Inr (filter (\<lambda>b. book_id b \<noteq> book_id db_book) bs))"

text \<open>The \<open>setattr\<close> loop over the given fields, then the commit, which rejects a null
  title or author.\<close>

definition apply_update :: "book_update \<Rightarrow> book \<Rightarrow> http_error + book" where
  "apply_update u b =
     (if bu_title u = Given None \<or> bu_author u = Given None then Inl IntegrityError
      else Inr (b\<lparr>title := (case bu_title u of Given (Some t) \<Rightarrow> t | _ \<Rightarrow> title b),
                  author := (case bu_author u of Given (Some a) \<Rightarrow> a | _ \<Rightarrow> author b),
                  year := (case bu_year u of Given y \<Rightarrow> y | Unset \<Rightarrow> year b)\<rparr>))"

definition update_book :: "int \<Rightarrow> book_update \<Rightarrow> book_table \<Rightarrow> http_error + (book \<times> book_table)" where
  "update_book i u bs =
     (case first_book i bs of
        None \<Rightarrow> Inl (BookNotFound i)
      | Some db_book \<Rightarrow>
          (case apply_update u db_book of
             Inl e \<Rightarrow> Inl e
           | Inr b' \<Rightarrow> Inr (b', map (\<lambda>b. if book_id b = book_id db_book then b' else b) bs)))"

definition search_filter :: "string option \<Rightarrow> string option \<Rightarrow> int option \<Rightarrow> book \<Rightarrow> bool" where
  "search_filter t a y b \<longleftrightarrow>
     (case t of None \<Rightarrow> True | Some s \<Rightarrow> ilike (title b) (''%'' @ s @ ''%'')) \<and>
     (case a of None \<Rightarrow> True | Some s \<Rightarrow> ilike (author b) (''%'' @ s @ ''%'')) \<and>
     (case y of None \<Rightarrow> True | Some n \<Rightarrow> year b = Some n)"

definition search_books ::
  "string option \<Rightarrow> string option \<Rightarrow> int option \<Rightarrow> int \<Rightarrow> int \<Rightarrow> book_table \<Rightarrow> http_error + book list" where
  "search_books t a y skip limit bs =
     (if \<not> page_params_ok skip limit then Inl ValidationError
      else Inr (offset_limit skip limit (filter (search_filter t a y) bs)))"

subsection \<open>Requests\<close>

datatype request =
    PostBook book_create
  | GetBooks int int
  | DeleteBookReq int
  | PutBook int book_update
  | SearchBooksReq "string option" "string option" "int option" int int

datatype response = Created book | BookList "book list" | NoContent | BookBody book | ErrorResponse http_error

definition handle :: "request \<Rightarrow> book_table \<Rightarrow> response \<times> book_table" where
  "handle r bs =
     (case r of
        PostBook c \<Rightarrow> (case create_book c bs of (b, bs') \<Rightarrow> (Created b, bs'))
      | GetBooks skip limit \<Rightarrow> (case list_books skip limit bs of
                                 Inl e \<Rightarrow> (ErrorResponse e, bs) | Inr xs \<Rightarrow> (BookList xs, bs))
      | DeleteBookReq i \<Rightarrow> (case delete_book i bs of
                              Inl e \<Rightarrow> (ErrorResponse e, bs) | Inr bs' \<Rightarrow> (NoContent, bs'))
      | PutBook i u \<Rightarrow> (case update_book i u bs of
                          Inl e \<Rightarrow> (ErrorResponse e, bs) | Inr (b, bs') \<Rightarrow> (BookBody b, bs'))
      | SearchBooksReq t a y skip limit \<Rightarrow> (case search_books t a y skip limit bs of
                                             Inl e \<Rightarrow> (ErrorResponse e, bs) | Inr xs \<Rightarrow> (BookList xs, bs)))"

fun status_code :: "response \<Rightarrow> nat" where
  "status_code (Created _) = 201"
| "status_code (BookList _) = 200"
| "status_code NoContent = 204"
| "status_code (BookBody _) = 200"
| "status_code (ErrorResponse (BookNotFound _)) = 404"
| "status_code (ErrorResponse ValidationError) = 422"
| "status_code (ErrorResponse IntegrityError) = 500"

text \<open>Startup, \<open>Base.metadata.create_all\<close> (line 18): the table is created when the
  database has none and left as it is, rows included, when it exists.\<close>

definition startup :: "book_table option \<Rightarrow> book_table" where
  "startup db = (case db of None \<Rightarrow> [] | Some bs \<Rightarrow> bs)"

text \<open>The application serving a sequence of requests one after the other, each on the
  table the previous one left.\<close>

fun serve :: "request list \<Rightarrow> book_table \<Rightarrow> response list \<times> book_table" where
  "serve [] bs = ([], bs)"
| "serve (r # rs) bs =
     (let (resp, bs') = handle r bs; (resps, bs'') = serve rs bs' in (resp # resps, bs''))"

text \<open>The table invariant: primary keys are positive and strictly increasing along the rows,
  so the row order the model reads for a query without \<open>ORDER BY\<close> is the primary-key
  order, and keys are pairwise distinct.\<close>

definition table_ok :: "book_table \<Rightarrow> bool" where
  "table_ok bs \<longleftrightarrow> sorted_wrt (<) (map book_id bs) \<and> list_all (\<lambda>b. 0 < book_id b) bs"

text \<open>Views used by the specifications: the table as a map from identifier to fields, the
  field merge of an update, and case-insensitive substring containment.\<close>

definition book_fields :: "book \<Rightarrow> string \<times> string \<times> int option" where
  "book_fields b = (title b, author b, year b)"

definition table_abs :: "book_table \<Rightarrow> int \<rightharpoonup> string \<times> string \<times> int option" where
  "table_abs bs = map_of (map (\<lambda>b. (book_id b, book_fields b)) bs)"

definition merge_field :: "'a field_value \<Rightarrow> 'a \<Rightarrow> 'a" where
  "merge_field f v = (case f of Unset \<Rightarrow> v | Given x \<Rightarrow> x)"

definition wildcard_free :: "string \<Rightarrow> bool" where
  "wildcard_free s \<longleftrightarrow> CHR ''%'' \<notin> set s \<and> CHR ''_'' \<notin> set s"

definition contains_ci :: "string \<Rightarrow> string \<Rightarrow> bool" where
  "contains_ci needle hay \<longleftrightarrow> sublist (map sql_lower needle) (map sql_lower hay)"

definition text_match :: "string option \<Rightarrow> string \<Rightarrow> bool" where
  "text_match q h = (case q of None \<Rightarrow> True | Some s \<Rightarrow> contains_ci s h)"

subsection \<open>Lemmas\<close>

lemma fold_max_bounds:
  fixes m :: int
  shows "m \<le> fold max xs m" and "x \<in> set xs \<Longrightarrow> x \<le> fold max xs m"
proof -
  have "m \<le> fold max xs m \<and> (\<forall>x\<in>set xs. x \<le> fold max xs m)" for m
  proof (induction xs arbitrary: m)
    case (Cons a xs)
    from Cons.IH [of "max a m"] show ?case by (auto intro: order_trans [OF max.cobounded2] order_trans [OF max.cobounded1])
  qed simp
  then show "m \<le> fold max xs m" and "x \<in> set xs \<Longrightarrow> x \<le> fold max xs m" by auto
qed

lemma next_id_fresh: "b \<in> set bs \<Longrightarrow> book_id b < next_id bs"
  using fold_max_bounds(2) [of "book_id b" "map book_id bs" 0] by (simp add: next_id_def)

lemma next_id_pos: "0 < next_id bs"
  using fold_max_bounds(1) [of 0 "map book_id bs"] by (simp add: next_id_def)

lemma next_id_notin: "next_id bs \<notin> book_id ` set bs"
  using next_id_fresh by fastforce

lemma first_book_Some: "first_book i bs = Some b \<Longrightarrow> b \<in> set bs \<and> book_id b = i"
  using find_Some_prop [of "\<lambda>b. book_id b = i" bs b] by (simp add: first_book_def)

lemma first_book_None_iff: "first_book i bs = None \<longleftrightarrow> i \<notin> book_id ` set bs"
  by (auto simp: first_book_def)

lemma first_book_absent: "i \<notin> book_id ` set bs \<Longrightarrow> first_book i bs = None"
  by (simp add: first_book_None_iff)

lemma apply_update_id: "apply_update u b = Inr b' \<Longrightarrow> book_id b' = book_id b"
  by (auto simp: apply_update_def split: if_splits)

lemma table_abs_None [simp]: "table_abs bs i = None \<longleftrightarrow> i \<notin> book_id ` set bs"
  by (auto simp: table_abs_def map_of_eq_None_iff image_image)

lemma table_abs_snoc:
  "book_id b \<notin> book_id ` set bs \<Longrightarrow> table_abs (bs @ [b]) = (table_abs bs)(book_id b \<mapsto> book_fields b)"
proof -
  assume "book_id b \<notin> book_id ` set bs"
  then have "map_of (map (\<lambda>b. (book_id b, book_fields b)) bs) (book_id b) = None"
    by (simp add: map_of_eq_None_iff image_image)
  then show ?thesis by (auto simp: table_abs_def map_of_append fun_eq_iff map_add_def split: option.split)
qed

lemma table_abs_filter:
  "table_abs (filter (\<lambda>b. book_id b \<noteq> i) bs) = (table_abs bs)(i := None)"
  by (induction bs) (auto simp: table_abs_def fun_upd_twist)

lemma map_replace_absent:
  "i \<notin> book_id ` set bs \<Longrightarrow> map (\<lambda>b. if book_id b = i then b' else b) bs = bs"
  by (induction bs) auto

lemma table_abs_replace:
  "i \<in> book_id ` set bs \<Longrightarrow> book_id b' = i \<Longrightarrow>
     table_abs (map (\<lambda>b. if book_id b = i then b' else b) bs) = (table_abs bs)(i \<mapsto> book_fields b')"
proof (induction bs)
  case (Cons a bs)
  show ?case
  proof (cases "i \<in> book_id ` set bs")
    case True
    with Cons show ?thesis by (auto simp: table_abs_def fun_upd_twist)
  next
    case False
    with Cons.prems have "book_id a = i" by auto
    with False Cons.prems show ?thesis by (simp add: map_replace_absent table_abs_def fun_eq_iff)
  qed
qed simp

lemma table_ok_distinct: "table_ok bs \<Longrightarrow> distinct (map book_id bs)"
  by (simp add: table_ok_def strict_sorted_iff)

lemma table_ok_snoc_next:
  "table_ok bs \<Longrightarrow> table_ok (bs @ [b]) \<longleftrightarrow> 0 < book_id b \<and> (\<forall>x \<in> set bs. book_id x < book_id b)"
  by (auto simp: table_ok_def sorted_wrt_append)

lemma table_ok_filter: "table_ok bs \<Longrightarrow> table_ok (filter P bs)"
  by (simp add: table_ok_def sorted_wrt_map sorted_wrt_filter list_all_iff)

lemma table_ok_replace:
  "table_ok bs \<Longrightarrow> book_id b' = i \<Longrightarrow> table_ok (map (\<lambda>b. if book_id b = i then b' else b) bs)"
proof -
  assume ok: "table_ok bs" and id: "book_id b' = i"
  have "map book_id (map (\<lambda>b. if book_id b = i then b' else b) bs) = map book_id bs"
    using id by (induction bs) auto
  moreover have "list_all (\<lambda>b. 0 < book_id b) (map (\<lambda>b. if book_id b = i then b' else b) bs)"
    using ok id by (auto simp: table_ok_def list_all_iff)
  ultimately show ?thesis using ok unfolding table_ok_def by metis
qed

lemma create_book_eq:
  "create_book c bs = (b, bs') \<longleftrightarrow>
     b = \<lparr>book_id = next_id bs, title = bc_title c, author = bc_author c, year = bc_year c\<rparr> \<and> bs' = bs @ [b]"
  by (auto simp: create_book_def Let_def)

lemma update_book_Inl:
  "update_book i u bs = Inl e \<Longrightarrow>
     (e = BookNotFound i \<and> i \<notin> book_id ` set bs) \<or>
     (e = IntegrityError \<and> i \<in> book_id ` set bs \<and> (bu_title u = Given None \<or> bu_author u = Given None))"
proof (cases "first_book i bs")
  case None
  then show "update_book i u bs = Inl e \<Longrightarrow> ?thesis"
    by (simp add: update_book_def first_book_None_iff [symmetric])
next
  case (Some b)
  from first_book_Some [OF Some] have "i \<in> book_id ` set bs" by force
  with Some show "update_book i u bs = Inl e \<Longrightarrow> ?thesis"
    by (auto simp: update_book_def apply_update_def split: if_splits)
qed

lemma offset_limit_sublist: "sublist (offset_limit skip limit xs) xs"
  unfolding offset_limit_def
  by (metis append_take_drop_id sublist_append_leftI sublist_append_rightI sublist_order.order.trans)

lemma concat_pages: "concat (map (\<lambda>k. take l (drop (k * l) xs)) [0..<n]) = take (n * l) xs"
proof (induction n)
  case (Suc n)
  have "take (Suc n * l) xs = take (n * l) xs @ take l (drop (n * l) xs)"
    by (metis add.commute mult_Suc take_add)
  with Suc show ?case by simp
qed simp

lemma like_match_percent_Nil: "like_match [CHR ''%''] t"
  by (induction t) simp_all

lemma like_match_plain_append:
  "CHR ''%'' \<notin> set s \<Longrightarrow> CHR ''_'' \<notin> set s \<Longrightarrow>
     like_match (s @ p) t \<longleftrightarrow> prefix s t \<and> like_match p (drop (length s) t)"
proof (induction s arbitrary: t)
  case (Cons c s)
  then show ?case by (cases t) auto
qed simp

lemma like_match_infix:
  assumes "wildcard_free s"
  shows "like_match (CHR ''%'' # s @ [CHR ''%'']) t \<longleftrightarrow> sublist s t"
proof (induction t)
  case Nil
  from assms show ?case
    by (simp add: wildcard_free_def like_match_plain_append like_match_percent_Nil)
next
  case (Cons x t)
  from assms have "like_match (s @ [CHR ''%'']) (x # t) \<longleftrightarrow> prefix s (x # t)"
    by (simp add: wildcard_free_def like_match_plain_append like_match_percent_Nil del: like_match.simps)
  with Cons.IH show ?case by (simp add: sublist_Cons_right del: like_match.simps(1))
qed

lemma sql_lower_cases:
  "sql_lower c = c \<or> (97 \<le> (of_char (sql_lower c) :: nat) \<and> (of_char (sql_lower c) :: nat) \<le> 122)"
  by (simp add: sql_lower_def Let_def of_char_of)

lemma sql_lower_percent [simp]: "sql_lower (CHR ''%'') = CHR ''%''"
  by (simp add: sql_lower_def)

lemma sql_lower_wildcard:
  assumes "sql_lower c = CHR ''%'' \<or> sql_lower c = CHR ''_''"
  shows "c = sql_lower c"
  using sql_lower_cases [of c] assms by auto

lemma wildcard_free_lower: "wildcard_free s \<Longrightarrow> wildcard_free (map sql_lower s)"
  unfolding wildcard_free_def using sql_lower_wildcard by fastforce

lemma ilike_infix:
  "wildcard_free s \<Longrightarrow> ilike h (CHR ''%'' # s @ [CHR ''%'']) \<longleftrightarrow> contains_ci s h"
  using like_match_infix [OF wildcard_free_lower, of s "map sql_lower h"]
  by (simp add: ilike_def contains_ci_def)

subsection \<open>Properties of the service\<close>

lemma handle_keeps_table_ok: "table_ok bs \<Longrightarrow> table_ok (snd (handle r bs))"
proof (cases r)
  case (PostBook c)
  assume "table_ok bs"
  then show ?thesis using PostBook next_id_pos next_id_fresh
    by (simp add: handle_def create_book_def Let_def table_ok_snoc_next)
next
  case (DeleteBookReq i)
  assume "table_ok bs"
  then show ?thesis using DeleteBookReq
    by (auto simp: handle_def delete_book_def table_ok_filter split: option.split)
next
  case (PutBook i u)
  assume ok: "table_ok bs"
  show ?thesis
  proof (cases "first_book i bs")
    case (Some b)
    with ok PutBook show ?thesis
      by (auto simp: handle_def update_book_def table_ok_replace dest: apply_update_id
               split: sum.split)
  next
    case None
    with ok PutBook show ?thesis by (simp add: handle_def update_book_def)
  qed
qed (auto simp: handle_def split: sum.split)

lemma serve_keeps_table_ok: "table_ok bs \<Longrightarrow> table_ok (snd (serve rs bs))"
proof (induction rs arbitrary: bs)
  case (Cons r rs)
  obtain resp bs' where h: "handle r bs = (resp, bs')" by fastforce
  from handle_keeps_table_ok [OF Cons.prems, of r] h have "table_ok bs'" by simp
  from Cons.IH [OF this] h show ?case by (cases "serve rs bs'") simp
qed simp

text \<open>C29: in every run of the service, from the table create_all leaves at startup (a new empty table, or an existing one that satisfies the invariant) through any sequence of requests, primary keys stay positive and strictly increasing in row order, hence pairwise distinct.\<close>

theorem service_run_table_ok:
  assumes "pred_option table_ok db"
  shows "table_ok (snd (serve rs (startup db)))"
proof (cases db)
  case None
  have "table_ok []" by (simp add: table_ok_def)
  with None show ?thesis by (simp add: startup_def serve_keeps_table_ok)
next
  case (Some bs)
  with assms show ?thesis by (simp add: startup_def serve_keeps_table_ok)
qed

theorem service_run_table_ok_witness:
  "table_ok (snd (serve [PostBook \<lparr>bc_title = ''Dune'', bc_author = ''Herbert'', bc_year = Some 1965\<rparr>,
                         PostBook \<lparr>bc_title = ''Emma'', bc_author = ''Austen'', bc_year = None\<rparr>,
                         DeleteBookReq 1] (startup None)))"
  by (rule service_run_table_ok) simp

text \<open>C30: POST /books/ refines insertion into a map from identifiers to books: the new identifier was unused, the map gains exactly the new entry with the body's fields, and the invariant holds after.\<close>

lemma create_book_refines:
  assumes "table_ok bs" and "create_book c bs = (b, bs')"
  shows "table_ok bs' \<and> table_abs bs (book_id b) = None \<and>
         table_abs bs' = (table_abs bs)(book_id b \<mapsto> (bc_title c, bc_author c, bc_year c))"
  using assms next_id_pos next_id_notin [of bs] next_id_fresh [of _ bs]
  by (auto simp: create_book_eq table_ok_snoc_next table_abs_snoc book_fields_def)

lemma create_book_refines_witness:
  "table_ok [] \<and> create_book \<lparr>bc_title = ''Dune'', bc_author = ''Herbert'', bc_year = Some 1965\<rparr> [] = (\<lparr>book_id = 1, title = ''Dune'', author = ''Herbert'', year = Some 1965\<rparr>, [\<lparr>book_id = 1, title = ''Dune'', author = ''Herbert'', year = Some 1965\<rparr>]) \<and>
   table_ok [\<lparr>book_id = 1, title = ''Dune'', author = ''Herbert'', year = Some 1965\<rparr>] \<and> table_abs [\<lparr>book_id = 1, title = ''Dune'', author = ''Herbert'', year = Some 1965\<rparr>] 1 = Some (''Dune'', ''Herbert'', Some 1965)"
proof -
  have ok: "table_ok []" by (simp add: table_ok_def)
  have cb: "create_book \<lparr>bc_title = ''Dune'', bc_author = ''Herbert'', bc_year = Some 1965\<rparr> [] = (\<lparr>book_id = 1, title = ''Dune'', author = ''Herbert'', year = Some 1965\<rparr>, [\<lparr>book_id = 1, title = ''Dune'', author = ''Herbert'', year = Some 1965\<rparr>])" by (simp add: create_book_def next_id_def Let_def)
  from create_book_refines [OF ok cb] ok cb show ?thesis by simp
qed

text \<open>C31: deleting the book just created restores the table, and that identifier is unknown (404) in the table before the creation.\<close>

lemma create_delete_roundtrip:
  assumes "create_book c bs = (b, bs')"
  shows "delete_book (book_id b) bs' = Inr bs \<and> delete_book (book_id b) bs = Inl (BookNotFound (book_id b))"
proof -
  have nb: "book_id b \<notin> book_id ` set bs" and bs': "bs' = bs @ [b]"
    using assms next_id_notin [of bs] by (auto simp: create_book_eq)
  then have nf: "first_book (book_id b) bs = None" by (simp add: first_book_None_iff)
  then have "first_book (book_id b) bs' = Some b"
    using bs' by (simp add: first_book_def find_append_eq del: find_None_iff')
  moreover have "filter (\<lambda>x. book_id x \<noteq> book_id b) bs = bs"
    using nb by (auto simp: filter_id_conv) (metis image_eqI)
  ultimately show ?thesis using nf bs' by (simp add: delete_book_def)
qed

lemma create_delete_roundtrip_witness:
  "create_book \<lparr>bc_title = ''Dune'', bc_author = ''Herbert'', bc_year = Some 1965\<rparr> [] = (\<lparr>book_id = 1, title = ''Dune'', author = ''Herbert'', year = Some 1965\<rparr>, [\<lparr>book_id = 1, title = ''Dune'', author = ''Herbert'', year = Some 1965\<rparr>]) \<and>
   delete_book 1 [\<lparr>book_id = 1, title = ''Dune'', author = ''Herbert'', year = Some 1965\<rparr>] = Inr [] \<and> delete_book 1 [] = Inl (BookNotFound 1)"
proof -
  have cb: "create_book \<lparr>bc_title = ''Dune'', bc_author = ''Herbert'', bc_year = Some 1965\<rparr> [] = (\<lparr>book_id = 1, title = ''Dune'', author = ''Herbert'', year = Some 1965\<rparr>, [\<lparr>book_id = 1, title = ''Dune'', author = ''Herbert'', year = Some 1965\<rparr>])" by (simp add: create_book_def next_id_def Let_def)
  from create_delete_roundtrip [OF cb] cb show ?thesis by simp
qed

text \<open>C32: DELETE /books/{id} refines removal from the map: it answers 404 exactly when the identifier is absent, and otherwise removes that entry only, keeping the invariant.\<close>

lemma delete_book_refines:
  assumes "table_ok bs"
  shows "case delete_book i bs of
           Inl e \<Rightarrow> e = BookNotFound i \<and> table_abs bs i = None
         | Inr bs' \<Rightarrow> table_abs bs i \<noteq> None \<and> table_abs bs' = (table_abs bs)(i := None) \<and> table_ok bs'"
proof (cases "first_book i bs")
  case None
  then show ?thesis by (simp add: delete_book_def first_book_None_iff [symmetric])
next
  case (Some b)
  with first_book_Some [OF Some] assms show ?thesis
    by (auto simp: delete_book_def table_abs_filter table_ok_filter)
qed

lemma delete_book_refines_witness:
  "table_ok [\<lparr>book_id = 1, title = ''Dune'', author = ''Herbert'', year = Some 1965\<rparr>] \<and> delete_book 1 [\<lparr>book_id = 1, title = ''Dune'', author = ''Herbert'', year = Some 1965\<rparr>] = Inr [] \<and> table_abs [\<lparr>book_id = 1, title = ''Dune'', author = ''Herbert'', year = Some 1965\<rparr>] 1 \<noteq> None \<and> table_ok []"
proof -
  have ok: "table_ok [\<lparr>book_id = 1, title = ''Dune'', author = ''Herbert'', year = Some 1965\<rparr>]" by (simp add: table_ok_def)
  have d: "delete_book 1 [\<lparr>book_id = 1, title = ''Dune'', author = ''Herbert'', year = Some 1965\<rparr>] = Inr []" by (simp add: delete_book_def first_book_def)
  from delete_book_refines [OF ok, of 1] ok d show ?thesis by simp
qed

text \<open>C33: PUT /books/{id} with no explicit null title or author refines an update of the map entry: given fields replace the stored ones, absent fields keep them, the identifier is unchanged.\<close>

lemma update_book_refines:
  assumes "table_ok bs" and "table_abs bs i = Some (t, a, y)"
    and "bu_title u \<noteq> Given None" and "bu_author u \<noteq> Given None"
  shows "\<exists>bs'. update_book i u bs =
           Inr (\<lparr>book_id = i, title = the (merge_field (bu_title u) (Some t)),
                 author = the (merge_field (bu_author u) (Some a)), year = merge_field (bu_year u) y\<rparr>, bs') \<and>
         table_abs bs' = (table_abs bs)(i \<mapsto> (the (merge_field (bu_title u) (Some t)),
                                            the (merge_field (bu_author u) (Some a)), merge_field (bu_year u) y)) \<and>
         table_ok bs'"
proof -
  from assms(2) have "i \<in> book_id ` set bs" using table_abs_None [of bs i] by auto
  then have "first_book i bs \<noteq> None" by (simp add: first_book_None_iff)
  then obtain b where fb: "first_book i bs = Some b" by blast
  from first_book_Some [OF fb] have b: "b \<in> set bs" "book_id b = i" by simp_all
  have "table_abs bs i = Some (book_fields b)"
    using table_ok_distinct [OF assms(1)] b
    by (auto simp: table_abs_def map_of_eq_Some_iff [symmetric] o_def distinct_map intro: map_of_is_SomeI)
  with assms(2) have f: "title b = t" "author b = a" "year b = y" by (simp_all add: book_fields_def)
  let ?b' = "\<lparr>book_id = i, title = the (merge_field (bu_title u) (Some t)),
              author = the (merge_field (bu_author u) (Some a)), year = merge_field (bu_year u) y\<rparr>"
  have au: "apply_update u b = Inr ?b'"
    using assms(3,4) b f
    by (cases "bu_title u"; cases "bu_author u"; cases "bu_year u")
       (auto simp: apply_update_def merge_field_def split: option.split)
  have ex: "i \<in> book_id ` set bs" using b by blast
  show ?thesis
    using fb au b table_abs_replace [OF ex, of ?b'] table_ok_replace [OF assms(1), of ?b' i]
    by (simp add: update_book_def book_fields_def)
qed

lemma update_book_refines_witness:
  "table_ok [\<lparr>book_id = 1, title = ''Dune'', author = ''Herbert'', year = Some 1965\<rparr>] \<and> table_abs [\<lparr>book_id = 1, title = ''Dune'', author = ''Herbert'', year = Some 1965\<rparr>] 1 = Some (''Dune'', ''Herbert'', Some 1965) \<and>
   (\<exists>bs'. update_book 1 \<lparr>bu_title = Given (Some ''Dune Messiah''), bu_author = Unset, bu_year = Given None\<rparr> [\<lparr>book_id = 1, title = ''Dune'', author = ''Herbert'', year = Some 1965\<rparr>] = Inr (\<lparr>book_id = 1, title = ''Dune Messiah'', author = ''Herbert'', year = None\<rparr>, bs') \<and>
          table_abs bs' 1 = Some (''Dune Messiah'', ''Herbert'', None))"
proof -
  have ok: "table_ok [\<lparr>book_id = 1, title = ''Dune'', author = ''Herbert'', year = Some 1965\<rparr>]" by (simp add: table_ok_def)
  have ab: "table_abs [\<lparr>book_id = 1, title = ''Dune'', author = ''Herbert'', year = Some 1965\<rparr>] 1 = Some (''Dune'', ''Herbert'', Some 1965)"
    by (simp add: table_abs_def book_fields_def)
  from update_book_refines [OF ok ab, of "\<lparr>bu_title = Given (Some ''Dune Messiah''), bu_author = Unset, bu_year = Given None\<rparr>"]
  obtain bs' where
    "update_book 1 \<lparr>bu_title = Given (Some ''Dune Messiah''), bu_author = Unset, bu_year = Given None\<rparr>
       [\<lparr>book_id = 1, title = ''Dune'', author = ''Herbert'', year = Some 1965\<rparr>] =
       Inr (\<lparr>book_id = 1, title = ''Dune Messiah'', author = ''Herbert'', year = None\<rparr>, bs')"
    and "table_abs bs' = (table_abs [\<lparr>book_id = 1, title = ''Dune'', author = ''Herbert'', year = Some 1965\<rparr>])
           (1 \<mapsto> (''Dune Messiah'', ''Herbert'', None))"
    by (auto simp: merge_field_def)
  with ok ab show ?thesis by auto
qed

text \<open>C34: PUT answers 404 on an unknown identifier and fails with an integrity error (HTTP 500) when the body sets title or author to null; on every error the table is unchanged.\<close>

lemma update_book_errors:
  "(i \<notin> book_id ` set bs \<longrightarrow> update_book i u bs = Inl (BookNotFound i)) \<and>
   (i \<in> book_id ` set bs \<and> (bu_title u = Given None \<or> bu_author u = Given None) \<longrightarrow>
      update_book i u bs = Inl IntegrityError) \<and>
   (\<forall>e. update_book i u bs = Inl e \<longrightarrow>
      handle (PutBook i u) bs = (ErrorResponse e, bs) \<and> status_code (ErrorResponse e) \<in> {404, 500})"
proof (intro conjI impI allI)
  assume "i \<notin> book_id ` set bs"
  then show "update_book i u bs = Inl (BookNotFound i)" by (simp add: update_book_def first_book_absent)
next
  assume a: "i \<in> book_id ` set bs \<and> (bu_title u = Given None \<or> bu_author u = Given None)"
  then have "first_book i bs \<noteq> None" by (simp add: first_book_None_iff)
  then obtain b where "first_book i bs = Some b" by blast
  with a show "update_book i u bs = Inl IntegrityError" by (auto simp: update_book_def apply_update_def)
next
  fix e assume "update_book i u bs = Inl e"
  then show "handle (PutBook i u) bs = (ErrorResponse e, bs)" by (simp add: handle_def)
next
  fix e assume "update_book i u bs = Inl e"
  from update_book_Inl [OF this] show "status_code (ErrorResponse e) \<in> {404, 500}" by auto
qed

lemma update_book_errors_witness:
  "update_book 1 \<lparr>bu_title = Given None, bu_author = Unset, bu_year = Unset\<rparr> [\<lparr>book_id = 1, title = ''Dune'', author = ''Herbert'', year = Some 1965\<rparr>] = Inl IntegrityError \<and>
   handle (PutBook 1 \<lparr>bu_title = Given None, bu_author = Unset, bu_year = Unset\<rparr>) [\<lparr>book_id = 1, title = ''Dune'', author = ''Herbert'', year = Some 1965\<rparr>] = (ErrorResponse IntegrityError, [\<lparr>book_id = 1, title = ''Dune'', author = ''Herbert'', year = Some 1965\<rparr>]) \<and>
   update_book 2 \<lparr>bu_title = Given None, bu_author = Unset, bu_year = Unset\<rparr> [\<lparr>book_id = 1, title = ''Dune'', author = ''Herbert'', year = Some 1965\<rparr>] = Inl (BookNotFound 2)"
  using update_book_errors [of 1 "[\<lparr>book_id = 1, title = ''Dune'', author = ''Herbert'', year = Some 1965\<rparr>]" "\<lparr>bu_title = Given None, bu_author = Unset, bu_year = Unset\<rparr>"] update_book_errors [of 2 "[\<lparr>book_id = 1, title = ''Dune'', author = ''Herbert'', year = Some 1965\<rparr>]" "\<lparr>bu_title = Given None, bu_author = Unset, bu_year = Unset\<rparr>"] by auto

text \<open>C35: GET /books/ answers 422 exactly when skip < 0 or limit is outside 1..100; otherwise it returns a contiguous run of the table of length min(limit, rows after skip), never more than 100 books.\<close>

lemma list_books_bounds:
  "(list_books skip limit bs = Inl ValidationError \<longleftrightarrow> \<not> (0 \<le> skip \<and> 0 < limit \<and> limit \<le> 100)) \<and>
   (\<forall>xs. list_books skip limit bs = Inr xs \<longrightarrow>
      length xs \<le> nat limit \<and> length xs \<le> 100 \<and> sublist xs bs \<and>
      length xs = min (nat limit) (length bs - nat skip))"
proof (intro conjI allI impI)
  show "list_books skip limit bs = Inl ValidationError \<longleftrightarrow> \<not> (0 \<le> skip \<and> 0 < limit \<and> limit \<le> 100)"
    by (simp add: list_books_def page_params_ok_def)
next
  fix xs assume a: "list_books skip limit bs = Inr xs"
  then have ok: "limit \<le> 100" and xs: "xs = offset_limit skip limit bs"
    by (simp_all add: list_books_def page_params_ok_def split: if_splits)
  have l: "length xs = min (nat limit) (length bs - nat skip)" using xs by (simp add: offset_limit_def)
  then show "length xs = min (nat limit) (length bs - nat skip)" .
  show "length xs \<le> nat limit" using l by simp
  show "length xs \<le> 100" using l ok by linarith
  show "sublist xs bs" using xs offset_limit_sublist by simp
qed

lemma list_books_bounds_witness:
  "list_books (-1) 10 [\<lparr>book_id = 1, title = ''Dune'', author = ''Herbert'', year = Some 1965\<rparr>] = Inl ValidationError \<and> list_books 0 10 [\<lparr>book_id = 1, title = ''Dune'', author = ''Herbert'', year = Some 1965\<rparr>] = Inr [\<lparr>book_id = 1, title = ''Dune'', author = ''Herbert'', year = Some 1965\<rparr>] \<and>
   sublist [\<lparr>book_id = 1, title = ''Dune'', author = ''Herbert'', year = Some 1965\<rparr>] [\<lparr>book_id = 1, title = ''Dune'', author = ''Herbert'', year = Some 1965\<rparr>]"
  using list_books_bounds [of "-1" 10 "[\<lparr>book_id = 1, title = ''Dune'', author = ''Herbert'', year = Some 1965\<rparr>]"] list_books_bounds [of 0 10 "[\<lparr>book_id = 1, title = ''Dune'', author = ''Herbert'', year = Some 1965\<rparr>]"]
  by (simp add: list_books_def page_params_ok_def offset_limit_def)

text \<open>C36: consecutive pages of GET /books/ with the same limit concatenate to the prefix of the table they cover.\<close>

lemma list_books_pages:
  assumes "0 < l" and "l \<le> 100"
    and "map (\<lambda>k. list_books (int (k * l)) (int l) bs) [0..<n] = map Inr pages"
  shows "concat pages = take (n * l) bs"
proof -
  have "map (\<lambda>k. list_books (int (k * l)) (int l) bs) [0..<n] =
        map Inr (map (\<lambda>k. take l (drop (k * l) bs)) [0..<n])"
    using assms(1,2) by (simp add: list_books_def page_params_ok_def offset_limit_def nat_mult_distrib)
  with assms(3) have "pages = map (\<lambda>k. take l (drop (k * l) bs)) [0..<n]"
    using map_injective [OF _ inj_Inr] by metis
  then show ?thesis by (simp add: concat_pages)
qed

lemma list_books_pages_witness:
  "map (\<lambda>k. list_books (int (k * 1)) (int 1) [\<lparr>book_id = 1, title = ''Dune'', author = ''Herbert'', year = Some 1965\<rparr>, \<lparr>book_id = 2, title = ''Emma'', author = ''Austen'', year = None\<rparr>]) [0..<2] = map Inr [[\<lparr>book_id = 1, title = ''Dune'', author = ''Herbert'', year = Some 1965\<rparr>], [\<lparr>book_id = 2, title = ''Emma'', author = ''Austen'', year = None\<rparr>]] \<and>
   concat [[\<lparr>book_id = 1, title = ''Dune'', author = ''Herbert'', year = Some 1965\<rparr>], [\<lparr>book_id = 2, title = ''Emma'', author = ''Austen'', year = None\<rparr>]] = take (2 * 1) [\<lparr>book_id = 1, title = ''Dune'', author = ''Herbert'', year = Some 1965\<rparr>, \<lparr>book_id = 2, title = ''Emma'', author = ''Austen'', year = None\<rparr>]"
proof -
  have p: "map (\<lambda>k. list_books (int (k * 1)) (int 1) [\<lparr>book_id = 1, title = ''Dune'', author = ''Herbert'', year = Some 1965\<rparr>, \<lparr>book_id = 2, title = ''Emma'', author = ''Austen'', year = None\<rparr>]) [0..<2] = map Inr [[\<lparr>book_id = 1, title = ''Dune'', author = ''Herbert'', year = Some 1965\<rparr>], [\<lparr>book_id = 2, title = ''Emma'', author = ''Austen'', year = None\<rparr>]]"
    by (simp add: list_books_def page_params_ok_def offset_limit_def upt_rec)
  from list_books_pages [OF _ _ p] p show ?thesis by simp
qed

text \<open>C37: for title and author queries without SQL wildcards, GET /books/search/ returns the page of books whose title and author contain the queries as substrings up to ASCII case and whose year equals the year query.\<close>

lemma search_books_refines:
  assumes "pred_option wildcard_free t" and "pred_option wildcard_free a"
  shows "search_books t a y skip limit bs =
           (if page_params_ok skip limit
            then Inr (offset_limit skip limit
                        (filter (\<lambda>b. text_match t (title b) \<and> text_match a (author b) \<and>
                                     pred_option (\<lambda>n. year b = Some n) y) bs))
            else Inl ValidationError)"
proof -
  have "search_filter t a y b \<longleftrightarrow>
          text_match t (title b) \<and> text_match a (author b) \<and> pred_option (\<lambda>n. year b = Some n) y" for b
    using assms by (cases t; cases a; cases y) (simp_all add: search_filter_def text_match_def ilike_infix)
  then have "search_filter t a y =
               (\<lambda>b. text_match t (title b) \<and> text_match a (author b) \<and> pred_option (\<lambda>n. year b = Some n) y)"
    by (simp add: fun_eq_iff)
  then show ?thesis by (simp add: search_books_def)
qed

lemma search_books_refines_witness:
  "pred_option wildcard_free (Some ''dun'') \<and> pred_option wildcard_free None \<and>
   search_books (Some ''dun'') None None 0 10 [\<lparr>book_id = 1, title = ''Dune'', author = ''Herbert'', year = Some 1965\<rparr>, \<lparr>book_id = 2, title = ''Emma'', author = ''Austen'', year = None\<rparr>] =
     Inr (offset_limit 0 10 (filter (\<lambda>b. text_match (Some ''dun'') (title b) \<and> text_match None (author b) \<and>
                                        pred_option (\<lambda>n. year b = Some n) (None :: int option)) [\<lparr>book_id = 1, title = ''Dune'', author = ''Herbert'', year = Some 1965\<rparr>, \<lparr>book_id = 2, title = ''Emma'', author = ''Austen'', year = None\<rparr>]))"
proof -
  have w: "pred_option wildcard_free (Some ''dun'')" by (simp add: wildcard_free_def)
  have p: "page_params_ok 0 10" by (simp add: page_params_ok_def)
  from search_books_refines [OF w, of None None 0 10 "[\<lparr>book_id = 1, title = ''Dune'', author = ''Herbert'', year = Some 1965\<rparr>, \<lparr>book_id = 2, title = ''Emma'', author = ''Austen'', year = None\<rparr>]"] w p show ?thesis by simp
qed

text \<open>The divergence behind C37's hypothesis: a search query is a LIKE pattern, not a
  substring; the query "_" matches a title that does not contain "_".\<close>

lemma search_underscore_matches:
  "search_books (Some ''_'') None None 0 10 [\<lparr>book_id = 1, title = ''Dune'', author = ''Herbert'', year = None\<rparr>] =
     Inr [\<lparr>book_id = 1, title = ''Dune'', author = ''Herbert'', year = None\<rparr>] \<and>
   \<not> contains_ci ''_'' ''Dune''"
  by code_simp

end
