(* ===== verification/Healthcheck.thy ===== *)
theory Healthcheck
  imports Main
begin

text \<open>
  The healthcheck service of \<open>src/lecture_6/main.py\<close>: one endpoint,
  \<open>GET /healthcheck\<close>, whose handler takes no input, touches no state and returns the
  JSON object \<open>{"status": "ok"}\<close>, modelled as the list of its key/value pairs.
\<close>

definition healthcheck :: "(string \<times> string) list" where
  "healthcheck = [(''status'', ''ok'')]"

end
