(* ===== verification/Spec2Isabelle.thy ===== *)
theory Spec2Isabelle
  imports Session BookApi Healthcheck
begin

text \<open>
  \<^bold>\<open>A verification library for the innowise_laboratory exercises.\<close>

  The repository holds three independent programs: the interactive student grade
  analyzer (\<open>src/lecture_3/student_grade_analyzer.py\<close>), a book-collection HTTP
  service (\<open>src/lecture_5/book_api/main.py\<close> and \<open>schemas.py\<close>) and a healthcheck
  service (\<open>src/lecture_6/main.py\<close>). They share no code. The grade analyzer is the
  part with state and rules and is modelled in two layers: the pure registry
  operations, and the input/output driver that calls them.

  \<^bold>\<open>Theories.\<close>
  \<^item> \<open>Prelude\<close>: Python exceptions (\<open>py_exc\<close>), the built-ins \<open>max\<close>/\<open>min\<close> as
    CPython scans (\<open>max_scan\<close>, \<open>min_scan\<close>, \<open>py_max\<close>, \<open>py_min\<close>: ties go to
    the first element), true division \<open>py_truediv\<close> with \<open>ZeroDivisionError\<close>, a
    first-index search that locates the record a generator expression returns, and
    shared list and map lemmas.
  \<^item> \<open>PyStr\<close>: \<open>str.strip\<close>, \<open>str.lower\<close> and \<open>int()\<close> on the Latin-1 range of
    code points (a HOL \<open>char\<close> is a code point below 256; the whitespace set, case map
    and digit set are CPython's on that range), including the default limit of 4300
    digits on \<open>int()\<close> of CPython 3.11 on.
  \<^item> \<open>Registry\<close>: the \<open>Student\<close> record and the list of students with the pure part of
    every handler of the analyzer: \<open>find_student\<close> (source lines 17-34),
    \<open>add_student\<close> (the checks and append of \<open>add_new_student\<close>, 42-53),
    \<open>classify_grade\<close>/\<open>append_grade\<close>/\<open>add_grades\<close> (the loop of
    \<open>add_grades_for_student\<close>, 63-98), \<open>student_average\<close>/\<open>build_report\<close>
    (\<open>show_report\<close>, 107-143) and \<open>top_performer\<close> (\<open>find_top_performer\<close>,
    152-171). Errors the handlers report are values of \<open>reg_error\<close>; reports are values
    of \<open>report\<close> and \<open>top_result\<close>. The invariant \<open>registry_ok\<close> and the abstraction
    \<open>reg_abs\<close> (normalised name to multiset of grades) are stated there.
  \<^item> \<open>Driver\<close>: \<open>input()\<close> and \<open>print()\<close> as explicit state passing over the record
    \<open>io_state\<close> (registry, remaining input events, printed messages). Each handler of
    the source is one definition (\<open>add_new_student\<close>, \<open>grade_loop\<close> with
    \<open>add_grades_for_student\<close>, \<open>show_report\<close>, \<open>find_top_performer\<close>,
    \<open>print_menu\<close>) returning the exception it lets escape; \<open>loop_iteration\<close> is one
    pass of \<open>while True\<close> in \<open>main\<close>. The predicate \<open>io_ok\<close> collects what every
    handler does to the state (input only consumed, registry only extended
    (\<open>reg_extends\<close>), invariant kept, which exceptions escape and why) and composes
    along a run.
  \<^item> \<open>Session\<close>: \<open>main_loop\<close>, the loop, \<open>main\<close>, the function with its
    \<open>except KeyboardInterrupt\<close>, and \<open>reachable\<close>, the inductive set of states at the
    top of the loop.
  \<^item> \<open>BookApi\<close>: the pydantic schemas as records, the \<open>books\<close> table as the list of
    its rows, each endpoint (\<open>create_book\<close>, \<open>list_books\<close>, \<open>delete_book\<close>,
    \<open>update_book\<close>, \<open>search_books\<close>) as a function to \<open>http_error + result\<close>, and
    \<open>handle\<close>, the step function on a \<open>request\<close> datatype; \<open>startup\<close> is the
    \<open>create_all\<close> at import time and \<open>serve\<close> a run of the application over a
    sequence of requests. The views \<open>table_abs\<close> (identifier to fields, refined as the
    map specification of an association list sorted by key) and \<open>contains_ci\<close>
    (case-insensitive substring) state the contracts.
  \<^item> \<open>Healthcheck\<close>: the constant response of \<open>GET /healthcheck\<close>.

  \<^bold>\<open>Properties.\<close>
  \<^item> C1-C19 (\<open>Registry\<close>): the invariant is kept by every state change; duplicate
    normalised names are rejected, distinct ones both added and found, blank names
    refused; the grade handler appends exactly the accepted tokens in order and stops at
    the first \<open>done\<close>; lookup is case- and whitespace-insensitive and finds exactly
    the registered student with the normalised name; adding a student and
    adding grades refine insertion into, and multiset union in, the abstract map; the
    report and the top performer compute the stated averages, bounds and tie rule. The
    report bounds (C16) are only those that survive float rounding: minimum and maximum
    ordered within [0, 100] and the overall average within [0, 100].
  \<^item> C20-C25 (\<open>Session\<close>): every reachable state satisfies the invariant (rule
    induction over \<open>reachable\<close>); the loop always ends; \<open>KeyboardInterrupt\<close> never
    escapes \<open>main\<close>, while every session without an exit choice or a Ctrl-C ends with
    an uncaught \<open>EOFError\<close>; choice 5 and Ctrl-C as first event end the run; along any
    run students are never removed or renamed and grades only appended.
  \<^item> C26-C28 (\<open>Driver\<close>): an invalid choice changes nothing; the interactive handlers
    refine \<open>add_student\<close> and \<open>add_grades\<close>, which carries C1-C19 over to the program
    as it runs.
  \<^item> C29-C37 (\<open>BookApi\<close>): along every run from startup the table keeps positive keys
    strictly increasing in row order, which is the order the model reads for queries
    without \<open>ORDER BY\<close>; create, delete and
    update refine operations on the map from identifiers to fields, with a create/delete
    round trip; the 404, 422 and integrity-error branches; pagination bounds and the
    concatenation of consecutive pages; search refines case-insensitive substring
    search for wildcard-free queries (a lemma shows it is not one otherwise).

  \<^bold>\<open>Termination and fuel.\<close> No fuel is used. The two \<open>while True\<close> loops of the
  analyzer consume an input event on every iteration that continues, so \<open>grade_loop\<close>
  and \<open>main_loop\<close> are \<open>function\<close>s whose termination is proved with the length of
  the remaining input as measure; the input is a finite list, ended by \<open>EOFError\<close>.
  \<open>like_match\<close> recurses on the pattern and then on the text.

  \<^bold>\<open>Numbers.\<close> Python's unbounded integers are \<open>int\<close>. Averages are Python floats in
  the source; the model computes them exactly as \<open>rat\<close>. Grades are integers in
  [0, 100], so every average is a quotient of integers of moderate size, which the
  binary double rounds correctly; comparisons of averages of two students agree with the
  exact ones unless two distinct quotients are within one unit in the last place, which
  cannot happen for grade lists shorter than about ten million entries. The overall
  average of the report is a float sum of such averages divided by their count, which
  can differ from the exact mean in the last place (and exceed the largest average), so
  the properties of the report stated here are the exact formula (C14) and bounds that
  monotone rounding preserves (C16). Formatting to one decimal (\<open>:.1f\<close>) is not
  modelled: reports carry the exact value.

  \<^bold>\<open>Not modelled.\<close> The text of prompts and messages (they are constructors of a
  message type carrying the values printed), Unicode code points above 255, HTTP routing,
  JSON and pydantic parsing (requests arrive as typed values), and the persistence layer
  of the book service: \<open>database.py\<close> and \<open>models.py\<close> are not in the repository, so
  the row type, identifier allocation (one above the largest identifier in use), the
  row order (primary key) and the SQL operators \<open>ILIKE\<close> (ASCII case folding, \<open>%\<close>
  and \<open>_\<close> wildcards, no escape character), \<open>OFFSET\<close> and \<open>LIMIT\<close> follow the spec
  and standard SQL. C29 needs an allocator that returns an identifier above every one in
  use, as SQLite's rowid does; the other properties of the book service hold for any
  allocator that returns an unused positive identifier. Whether a deleted largest
  identifier is handed out again depends on the engine and is not claimed. Requests are
  served one after the other: FastAPI runs these synchronous endpoints in a thread pool,
  each with its own session, and the interleaving of concurrent transactions is the
  database's and is not modelled. The healthcheck service's routing is FastAPI's: only
  its handler is modelled.
\<close>

end
